theory Spec2Isabelle
  imports Main "HOL-Library.AList"
begin

section \<open>Python strings\<close>

text \<open>
  A Python \<open>str\<close> is modelled as a HOL \<open>string\<close>, each \<open>char\<close> read as the code point of
  the same number (0 to 255, Latin-1). The predicates below are Python's \<open>str.isspace\<close> and
  \<open>str.isprintable\<close> on that range: white space is TAB to CR, FS to US, the space, NEL
  (0x85) and NBSP (0xA0); printable is 0x20 to 0x7E and 0xA1 to 0xFF without the soft
  hyphen 0xAD. The regular expression class \<open>\s\<close> and \<open>str.strip()\<close> both use \<open>isspace\<close>.
\<close>

definition isspace :: "char \<Rightarrow> bool" where
  "isspace c = (let n = (of_char c :: nat) in
     (9 \<le> n \<and> n \<le> 13) \<or> (28 \<le> n \<and> n \<le> 32) \<or> n = 133 \<or> n = 160)"

definition isprintable :: "char \<Rightarrow> bool" where
  "isprintable c = (let n = (of_char c :: nat) in
     (32 \<le> n \<and> n \<le> 126) \<or> (161 \<le> n \<and> n \<noteq> 173))"

text \<open>\<open>s.strip()\<close>: leading and trailing white space removed.\<close>

definition py_strip :: "string \<Rightarrow> string" where
  "py_strip s = rev (dropWhile isspace (rev (dropWhile isspace s)))"

text \<open>\<open>re.sub(r'\s+', ' ', s)\<close>: every maximal run of white space becomes one space.\<close>

function re_sub_ws :: "string \<Rightarrow> string" where
  "re_sub_ws [] = []"
| "re_sub_ws (c # cs) =
     (if isspace c then CHR '' '' # re_sub_ws (dropWhile isspace cs) else c # re_sub_ws cs)"
  by pat_completeness auto
termination
  by (relation "measure length") (auto simp: le_imp_less_Suc length_dropWhile_le)

text \<open>\<open>s.replace(a, b)\<close> for one-character \<open>a\<close> and \<open>b\<close>.\<close>

definition py_replace :: "char \<Rightarrow> char \<Rightarrow> string \<Rightarrow> string" where
  "py_replace a b s = map (\<lambda>c. if c = a then b else c) s"

section \<open>Text normalization (\<open>clean_text\<close>)\<close>

text \<open>
  \<open>ocr_tool.clean_text\<close>:
  \<^verbatim>\<open>return re.sub(r"\s+", " ", text).strip()\<close>
\<close>

definition ocr_tool_clean_text :: "string \<Rightarrow> string" where
  "ocr_tool_clean_text text = py_strip (re_sub_ws text)"

text \<open>
  \<open>ocr_tool_anthropic.clean_text\<close>:
  \<^verbatim>\<open>
  if not text: return ""
  text = re.sub(r'\s+', ' ', text)
  text = text.replace('|', 'I')
  text = text.replace('l', '1')
  text = text.replace('O', '0')
  text = ''.join(char for char in text if char.isprintable())
  return text.strip()
  \<close>
\<close>

definition anthropic_clean_text :: "string \<Rightarrow> string" where
  "anthropic_clean_text text =
     (if text = [] then []
      else let t1 = re_sub_ws text;
               t2 = py_replace (CHR ''|'') (CHR ''I'') t1;
               t3 = py_replace (CHR ''l'') (CHR ''1'') t2;
               t4 = py_replace (CHR ''O'') (CHR ''0'') t3;
               t5 = filter isprintable t4
           in py_strip t5)"

text \<open>
  A string is single-spaced when each of its white-space characters is a space that is
  not followed by another white-space character.
\<close>

fun single_spaced :: "string \<Rightarrow> bool" where
  "single_spaced [] = True"
| "single_spaced [c] = (isspace c \<longrightarrow> c = CHR '' '')"
| "single_spaced (c # d # cs) =
     ((isspace c \<longrightarrow> c = CHR '' '' \<and> \<not> isspace d) \<and> single_spaced (d # cs))"

section \<open>Python values, exceptions and log records\<close>

text \<open>
  \<open>json.loads\<close> returns \<open>None\<close>, a \<open>bool\<close>, an \<open>int\<close>, a \<open>float\<close>, a \<open>str\<close>, a \<open>list\<close> or a
  \<open>dict\<close>. A \<open>dict\<close> is an association list in insertion order whose keys are distinct;
  \<open>d[k] = v\<close> is \<open>AList.update\<close> (the value is replaced in place, a new key is appended).
  \<open>Finite m e\<close> is the float \<open>m * 2 ^ e\<close>.
\<close>

datatype pyfloat = Finite int int | PosInf | NegInf | NaN

datatype json =
    JNull
  | JBool bool
  | JInt int
  | JFloat pyfloat
  | JStr string
  | JArr "json list"
  | JObj "(string \<times> json) list"

type_synonym dict = "(string \<times> json) list"

text \<open>Python's truth value of an object (\<open>if x:\<close>, \<open>not x\<close>).\<close>

fun truthy :: "json \<Rightarrow> bool" where
  "truthy JNull = False"
| "truthy (JBool b) = b"
| "truthy (JInt i) = (i \<noteq> 0)"
| "truthy (JFloat f) = (case f of Finite m e \<Rightarrow> m \<noteq> 0 | _ \<Rightarrow> True)"
| "truthy (JStr s) = (s \<noteq> [])"
| "truthy (JArr xs) = (xs \<noteq> [])"
| "truthy (JObj kvs) = (kvs \<noteq> [])"

fun py_type_name :: "json \<Rightarrow> string" where
  "py_type_name JNull = ''NoneType''"
| "py_type_name (JBool b) = ''bool''"
| "py_type_name (JInt i) = ''int''"
| "py_type_name (JFloat f) = ''float''"
| "py_type_name (JStr s) = ''str''"
| "py_type_name (JArr xs) = ''list''"
| "py_type_name (JObj kvs) = ''dict''"

text \<open>
  The source tells exceptions apart only by \<open>except ValueError\<close> and \<open>except Exception\<close>:
  \<open>ValueError\<close> stands for an instance of \<open>ValueError\<close> or of a subclass
  (\<open>json.JSONDecodeError\<close> is one), \<open>OtherException\<close> for any other \<open>Exception\<close>. The string
  is \<open>str(e)\<close>, the message without the name of the class (for a \<open>KeyError\<close> the \<open>repr\<close> of
  the key).
\<close>

datatype exc = ValueError string | OtherException string

fun str_exc :: "exc \<Rightarrow> string" where
  "str_exc (ValueError m) = m"
| "str_exc (OtherException m) = m"

text \<open>
  A log record: \<open>logging.info(msg)\<close>, \<open>logging.error(msg)\<close>, and \<open>ERROR_repr p v\<close> for
  \<open>logging.error(f"{p}{v}")\<close> with a parsed object \<open>v\<close>.
\<close>

datatype log_entry = INFO string | ERROR string | ERROR_repr string json

text \<open>
  A computation that writes log records and may raise: the records written so far are kept
  when it raises.
\<close>

type_synonym 'a res = "(exc + 'a) \<times> log_entry list"

definition ret :: "'a \<Rightarrow> 'a res" where
  "ret x = (Inr x, [])"

definition raise :: "exc \<Rightarrow> 'a res" where
  "raise e = (Inl e, [])"

definition lift :: "exc + 'a \<Rightarrow> 'a res" where
  "lift r = (r, [])"

definition emit :: "log_entry list \<Rightarrow> unit res" where
  "emit l = (Inr (), l)"

definition seq :: "'a res \<Rightarrow> ('a \<Rightarrow> 'b res) \<Rightarrow> 'b res" where
  "seq m f =
     (case m of
        (Inl e, l) \<Rightarrow> (Inl e, l)
      | (Inr x, l) \<Rightarrow> (case f x of (r, l') \<Rightarrow> (r, l @ l')))"

subsection \<open>Operations on parsed objects\<close>

definition quote :: "string \<Rightarrow> string" where
  "quote s = [CHR 0x27] @ s @ [CHR 0x27]"

definition not_subscriptable :: "json \<Rightarrow> exc" where
  "not_subscriptable v =
     OtherException (quote (py_type_name v) @ '' object is not subscriptable'')"

definition no_attribute :: "json \<Rightarrow> string \<Rightarrow> exc" where
  "no_attribute v a =
     OtherException (quote (py_type_name v) @ '' object has no attribute '' @ quote a)"

definition is_substring :: "string \<Rightarrow> string \<Rightarrow> bool" where
  "is_substring k s = (\<exists>i \<in> set [0 ..< Suc (length s)]. take (length k) (drop i s) = k)"

text \<open>
  \<open>v[k]\<close> for a string \<open>k\<close>. The message of the \<open>KeyError\<close> is \<open>repr(k)\<close>: \<open>k\<close> between single
  quotes for the keys the source uses, which have no quote and no backslash.
\<close>

definition py_getitem :: "json \<Rightarrow> string \<Rightarrow> exc + json" where
  "py_getitem v k =
     (case v of
        JObj kvs \<Rightarrow>
          (case map_of kvs k of
             Some x \<Rightarrow> Inr x
           | None \<Rightarrow> Inl (OtherException (quote k)))
      | JArr xs \<Rightarrow> Inl (OtherException ''list indices must be integers or slices, not str'')
      | JStr s \<Rightarrow> Inl (OtherException (''string indices must be integers, not '' @ quote ''str''))
      | _ \<Rightarrow> Inl (not_subscriptable v))"

text \<open>\<open>v[0]\<close>.\<close>

definition py_getitem0 :: "json \<Rightarrow> exc + json" where
  "py_getitem0 v =
     (case v of
        JArr xs \<Rightarrow>
          (case xs of
             [] \<Rightarrow> Inl (OtherException ''list index out of range'')
           | x # _ \<Rightarrow> Inr x)
      | JStr s \<Rightarrow>
          (case s of
             [] \<Rightarrow> Inl (OtherException ''string index out of range'')
           | c # _ \<Rightarrow> Inr (JStr [c]))
      | JObj kvs \<Rightarrow> Inl (OtherException ''0'')
      | _ \<Rightarrow> Inl (not_subscriptable v))"

text \<open>\<open>k in v\<close> for a string \<open>k\<close>.\<close>

definition py_contains :: "string \<Rightarrow> json \<Rightarrow> exc + bool" where
  "py_contains k v =
     (case v of
        JObj kvs \<Rightarrow> Inr (k \<in> set (map fst kvs))
      | JArr xs \<Rightarrow> Inr (JStr k \<in> set xs)
      | JStr s \<Rightarrow> Inr (is_substring k s)
      | _ \<Rightarrow> Inl (OtherException (''argument of type '' @ quote (py_type_name v)
                 @ '' is not iterable'')))"

text \<open>\<open>v.get(k)\<close>.\<close>

definition py_get :: "json \<Rightarrow> string \<Rightarrow> exc + json" where
  "py_get v k =
     (case v of
        JObj kvs \<Rightarrow> Inr (case map_of kvs k of Some x \<Rightarrow> x | None \<Rightarrow> JNull)
      | _ \<Rightarrow> Inl (no_attribute v ''get''))"

text \<open>\<open>v[k] = x\<close> for a string \<open>k\<close>.\<close>

definition py_setitem :: "json \<Rightarrow> string \<Rightarrow> json \<Rightarrow> exc + json" where
  "py_setitem v k x =
     (case v of
        JObj kvs \<Rightarrow> Inr (JObj (AList.update k x kvs))
      | JArr xs \<Rightarrow> Inl (OtherException ''list indices must be integers or slices, not str'')
      | _ \<Rightarrow> Inl (OtherException (quote (py_type_name v)
                 @ '' object does not support item assignment'')))"

text \<open>\<open>s.split(d)\<close> for a one-character separator.\<close>

fun py_split :: "char \<Rightarrow> string \<Rightarrow> string list" where
  "py_split d [] = [[]]"
| "py_split d (c # cs) =
     (if c = d then [] # py_split d cs
      else (case py_split d cs of [] \<Rightarrow> [[c]] | x # xs \<Rightarrow> (c # x) # xs))"

text \<open>\<open>str(n)\<close> for integers.\<close>

fun str_nat :: "nat \<Rightarrow> string" where
  "str_nat n =
     (if n < 10 then [''0123456789'' ! n] else str_nat (n div 10) @ [''0123456789'' ! (n mod 10)])"

declare str_nat.simps [simp del]

definition str_int :: "int \<Rightarrow> string" where
  "str_int i = (if i < 0 then CHR ''-'' # str_nat (nat (- i)) else str_nat (nat i))"

text \<open>\<open>a, b = xs\<close> for a list \<open>xs\<close>.\<close>

definition unpack2 :: "string list \<Rightarrow> exc + (string \<times> string)" where
  "unpack2 xs =
     (case xs of
        [a, b] \<Rightarrow> Inr (a, b)
      | _ \<Rightarrow> Inl (ValueError
                 (if length xs < 2
                  then ''not enough values to unpack (expected 2, got '' @ str_nat (length xs) @ '')''
                  else ''too many values to unpack (expected 2)'')))"

text \<open>\<open>s.lower()\<close> on Latin-1.\<close>

definition lower_char :: "char \<Rightarrow> char" where
  "lower_char c = (let n = (of_char c :: nat) in
     if (65 \<le> n \<and> n \<le> 90) \<or> (192 \<le> n \<and> n \<le> 222 \<and> n \<noteq> 215) then char_of (n + 32) else c)"

definition py_lower :: "string \<Rightarrow> string" where
  "py_lower s = map lower_char s"

section \<open>Dates (\<open>standardize_date\<close>)\<close>

text \<open>
  \<open>dateutil.parser.parse\<close> is a library outside the repository: the call
  \<open>parse_date(s, dayfirst=True, fuzzy=True)\<close> is a parameter of type
  \<open>string \<Rightarrow> exc + datetime\<close>. \<open>strftime("%Y-%m-%d")\<close> is the one of the C library of Linux, where
  the code runs: month and day padded to two digits, the year not padded (the year 999 gives
  \<open>999-03-15\<close>).
\<close>

record datetime =
  dt_year :: nat
  dt_month :: nat
  dt_day :: nat

definition zfill :: "nat \<Rightarrow> string \<Rightarrow> string" where
  "zfill w s = replicate (w - length s) (CHR ''0'') @ s"

definition strftime_ymd :: "datetime \<Rightarrow> string" where
  "strftime_ymd d =
     str_nat (dt_year d) @ ''-'' @ zfill 2 (str_nat (dt_month d)) @ ''-''
       @ zfill 2 (str_nat (dt_day d))"

text \<open>
  \<open>ocr_tool.standardize_date\<close>:
  \<^verbatim>\<open>
  try:
      if date_str:
          date_obj = parse_date(date_str, dayfirst=True, fuzzy=True)
          return date_obj.strftime("%Y-%m-%d")
  except Exception as error:
      logging.error(f"Error parsing date: {error}")
  return "none"
  \<close>
  The parser raises \<open>TypeError\<close> on an object that is not a string.
\<close>

definition ocr_tool_standardize_date ::
  "(string \<Rightarrow> exc + datetime) \<Rightarrow> json \<Rightarrow> json \<times> log_entry list" where
  "ocr_tool_standardize_date parse date_str =
     (if truthy date_str then
        (case date_str of
           JStr s \<Rightarrow>
             (case parse s of
                Inr date_obj \<Rightarrow> (JStr (strftime_ymd date_obj), [])
              | Inl error \<Rightarrow> (JStr ''none'', [ERROR (''Error parsing date: '' @ str_exc error)]))
         | _ \<Rightarrow>
             (JStr ''none'',
              [ERROR (''Error parsing date: Parser must be a string or character stream, not ''
                 @ py_type_name date_str)]))
      else (JStr ''none'', []))"

text \<open>
  \<open>ocr_tool_anthropic.standardize_date\<close>:
  \<^verbatim>\<open>
  if not date_str or date_str.lower() in ['none', 'null', '']:
      return None
  try:
      date_obj = parse_date(date_str, dayfirst=True, fuzzy=True)
      return date_obj.strftime("%Y-%m-%d")
  except Exception as error:
      logger.error(f"Date parsing error for '{date_str}': {error}")
      return None
  \<close>
  \<open>date_str.lower()\<close> stands outside the \<open>try\<close>: on a truthy object that is not a string
  it raises \<open>AttributeError\<close>.
\<close>

definition anthropic_standardize_date ::
  "(string \<Rightarrow> exc + datetime) \<Rightarrow> json \<Rightarrow> json res" where
  "anthropic_standardize_date parse date_str =
     (if \<not> truthy date_str then ret JNull
      else
        (case date_str of
           JStr s \<Rightarrow>
             (if py_lower s \<in> set [''none'', ''null'', []] then ret JNull
              else
                (case parse s of
                   Inr date_obj \<Rightarrow> ret (JStr (strftime_ymd date_obj))
                 | Inl error \<Rightarrow>
                     (Inr JNull,
                      [ERROR (''Date parsing error for '' @ quote s @ '': '' @ str_exc error)])))
         | _ \<Rightarrow> raise (no_attribute date_str ''lower'')))"

section \<open>Sentinel stripping and the payment-method default (\<open>main.set_invoice\<close>)\<close>

text \<open>
  \<^verbatim>\<open>
  for key, value in payload.items():
      if value == "none":
          payload[key] = None
      if key == "paymentMethod" and payload[key] is None:
          payload[key] = "draft"
  \<close>
  One iteration is \<open>set_invoice_step\<close>; the loop visits the items of the record it updates.
\<close>

definition set_invoice_step :: "string \<times> json \<Rightarrow> dict \<Rightarrow> dict" where
  "set_invoice_step item payload =
     (let key = fst item; value = snd item;
          payload1 = (if value = JStr ''none'' then AList.update key JNull payload else payload);
          payload2 = (if key = ''paymentMethod'' \<and> map_of payload1 key = Some JNull
                      then AList.update key (JStr ''draft'') payload1 else payload1)
      in payload2)"

definition set_invoice_fields :: "dict \<Rightarrow> dict" where
  "set_invoice_fields payload = fold set_invoice_step payload payload"

text \<open>
  What one pass of the loop of \<open>set_invoice\<close> makes of the value \<open>v\<close> stored under \<open>key\<close>.
\<close>

definition normalized_value :: "string \<Rightarrow> json \<Rightarrow> json" where
  "normalized_value key v =
     (let v1 = (if v = JStr ''none'' then JNull else v)
      in if key = ''paymentMethod'' \<and> v1 = JNull then JStr ''draft'' else v1)"

section \<open>The environment of a run\<close>

text \<open>
  What the libraries answer during one run is a parameter of the model. A page of an open
  PDF gives its embedded text (\<open>page.extract_text()\<close>, \<open>None\<close> or a string) and the text
  that \<open>page.to_image(resolution=300)\<close> followed by \<open>pytesseract.image_to_string\<close> reads from
  it; either call may raise.
\<close>

record page =
  extract_text :: "exc + string option"
  page_ocr :: "exc + string"

record http_response =
  status_code :: int
  response_json :: "exc + json"
  response_text :: string

text \<open>
  \<^item> \<open>mime_from_file\<close>: \<open>magic.Magic(mime=True).from_file(path)\<close>;
  \<^item> \<open>pdf_open\<close>: the pages of \<open>pdfplumber.open(path)\<close>;
  \<^item> \<open>cv2_imread\<close>: whether \<open>cv2.imread(path)\<close> returns an image (it returns \<open>None\<close> otherwise);
    \<open>cv2_error\<close>: the message of the \<open>cv2.error\<close> that \<open>cv2.cvtColor\<close> raises on \<open>None\<close>, which
    depends on the build of OpenCV;
  \<^item> \<open>ocr_threshold\<close>, \<open>ocr_adaptive\<close>: the text read from a loaded image after the
    preprocessing of \<open>ocr_tool\<close> (fixed threshold, median blur) and of \<open>ocr_tool_anthropic\<close>
    (adaptive threshold, denoising);
  \<^item> \<open>requests_post\<close>: the answer of the chat-completions endpoint to a request whose user
    message is the given string; \<open>completions_create\<close>: the answer of
    \<open>client.completions.create\<close> to the given prompt, \<open>None\<close> for an object without the
    attribute \<open>completion\<close>;
  \<^item> \<open>json_loads\<close>: \<open>json.loads\<close> on a string; \<open>parse_date\<close>: the date parser.
\<close>

record world =
  mime_from_file :: "string \<Rightarrow> exc + string"
  pdf_open :: "string \<Rightarrow> exc + page list"
  cv2_imread :: "string \<Rightarrow> bool"
  cv2_error :: string
  ocr_threshold :: "string \<Rightarrow> exc + string"
  ocr_adaptive :: "string \<Rightarrow> exc + string"
  requests_post :: "string \<Rightarrow> exc + http_response"
  completions_create :: "string \<Rightarrow> exc + string option"
  json_loads :: "string \<Rightarrow> exc + json"
  parse_date :: "string \<Rightarrow> exc + datetime"

text \<open>\<open>data.py\<close>: the instruction template and the key read from the process environment.\<close>

record config =
  PROMPT :: string
  ANTHROPIC_API_KEY :: "string option"

definition newline :: string where
  "newline = [CHR 0x0A]"

definition HUMAN_PROMPT :: string where
  "HUMAN_PROMPT = newline @ newline @ ''Human:''"

definition AI_PROMPT :: string where
  "AI_PROMPT = newline @ newline @ ''Assistant:''"

definition opt_list :: "'a option \<Rightarrow> 'a list" where
  "opt_list r = (case r of None \<Rightarrow> [] | Some x \<Rightarrow> [x])"

section \<open>Text acquisition (\<open>extract_text_from_pdf\<close>, \<open>extract_text_from_image\<close>)\<close>

text \<open>
  \<open>ocr_tool.extract_text_from_pdf\<close>:
  \<^verbatim>\<open>
  text = ""
  with pdfplumber.open(pdf_path) as pdf:
      for page in pdf.pages:
          page_text = page.extract_text()
          if page_text:
              text += page_text + "\n"
          else:
              page_image = page.to_image(resolution=300)
              pil_image = page_image.original
              ocr_text = pytesseract.image_to_string(pil_image, lang="eng+ces")
              text += ocr_text + "\n"
  return text
  \<close>
\<close>

definition ocr_tool_page :: "page \<Rightarrow> exc + string" where
  "ocr_tool_page page =
     (case extract_text page of
        Inl e \<Rightarrow> Inl e
      | Inr page_text \<Rightarrow>
          (case page_text of
             Some (c # cs) \<Rightarrow> Inr ((c # cs) @ newline)
           | _ \<Rightarrow>
               (case page_ocr page of
                  Inl e \<Rightarrow> Inl e
                | Inr ocr_text \<Rightarrow> Inr (ocr_text @ newline))))"

fun ocr_tool_pdf_loop :: "page list \<Rightarrow> string \<Rightarrow> exc + string" where
  "ocr_tool_pdf_loop [] text = Inr text"
| "ocr_tool_pdf_loop (page # pages) text =
     (case ocr_tool_page page of
        Inl e \<Rightarrow> Inl e
      | Inr piece \<Rightarrow> ocr_tool_pdf_loop pages (text @ piece))"

definition ocr_tool_extract_text_from_pdf :: "world \<Rightarrow> string \<Rightarrow> exc + string" where
  "ocr_tool_extract_text_from_pdf w pdf_path =
     (case pdf_open w pdf_path of
        Inl e \<Rightarrow> Inl e
      | Inr pages \<Rightarrow> ocr_tool_pdf_loop pages [])"

text \<open>
  \<open>ocr_tool.extract_text_from_image\<close> and \<open>preprocess_image\<close>: \<open>cv2.cvtColor\<close> raises on the
  \<open>None\<close> that \<open>cv2.imread\<close> returns for a file it cannot read.
\<close>

definition ocr_tool_extract_text_from_image :: "world \<Rightarrow> string \<Rightarrow> exc + string" where
  "ocr_tool_extract_text_from_image w image_path =
     (if cv2_imread w image_path then ocr_threshold w image_path
      else Inl (OtherException (cv2_error w)))"

text \<open>
  \<open>ocr_tool_anthropic.extract_text_from_pdf\<close>:
  \<^verbatim>\<open>
  text = ""
  try:
      with pdfplumber.open(pdf_path) as pdf:
          for page_num, page in enumerate(pdf.pages, start=1):
              logger.info(f"Processing page {page_num} of {len(pdf.pages)}")
              page_text = page.extract_text()
              if page_text and len(page_text.strip()) > 50:
                  text += page_text + "\n"
              else:
                  logger.info(f"Using OCR for page {page_num}")
                  page_image = page.to_image(resolution=300)
                  pil_image = page_image.original
                  ocr_text = pytesseract.image_to_string(pil_image, lang="eng+ces")
                  text += clean_text(ocr_text) + "\n"
      logger.info("PDF text extraction completed")
  except Exception as e:
      logger.error(f"Error extracting text from PDF: {str(e)}")
      raise
  return text
  \<close>
\<close>

definition usable_text :: "string option \<Rightarrow> bool" where
  "usable_text page_text =
     (case page_text of None \<Rightarrow> False | Some t \<Rightarrow> t \<noteq> [] \<and> 50 < length (py_strip t))"

definition anthropic_page :: "nat \<Rightarrow> nat \<Rightarrow> page \<Rightarrow> string res" where
  "anthropic_page n_pages page_num page =
     seq (emit [INFO (''Processing page '' @ str_nat page_num @ '' of '' @ str_nat n_pages)]) (\<lambda>_.
     seq (lift (extract_text page)) (\<lambda>page_text.
       if usable_text page_text then ret (the page_text @ newline)
       else
         seq (emit [INFO (''Using OCR for page '' @ str_nat page_num)]) (\<lambda>_.
         seq (lift (page_ocr page)) (\<lambda>ocr_text.
           ret (anthropic_clean_text ocr_text @ newline)))))"

fun anthropic_pdf_loop :: "nat \<Rightarrow> nat \<Rightarrow> page list \<Rightarrow> string \<Rightarrow> string res" where
  "anthropic_pdf_loop n_pages page_num [] text = (Inr text, [])"
| "anthropic_pdf_loop n_pages page_num (page # pages) text =
     (case anthropic_page n_pages page_num page of
        (Inl e, l) \<Rightarrow> (Inl e, l)
      | (Inr piece, l) \<Rightarrow>
          (case anthropic_pdf_loop n_pages (Suc page_num) pages (text @ piece) of
             (r, l') \<Rightarrow> (r, l @ l')))"

definition anthropic_extract_text_from_pdf :: "world \<Rightarrow> string \<Rightarrow> string res" where
  "anthropic_extract_text_from_pdf w pdf_path =
     (case seq (lift (pdf_open w pdf_path)) (\<lambda>pages.
           seq (anthropic_pdf_loop (length pages) 1 pages []) (\<lambda>text.
           seq (emit [INFO ''PDF text extraction completed'']) (\<lambda>_.
             ret text))) of
        (Inl e, l) \<Rightarrow> (Inl e, l @ [ERROR (''Error extracting text from PDF: '' @ str_exc e)])
      | (Inr text, l) \<Rightarrow> (Inr text, l))"

text \<open>
  \<open>ocr_tool_anthropic.extract_text_from_image\<close>:
  \<^verbatim>\<open>
  try:
      image = cv2.imread(image_path, cv2.IMREAD_COLOR)
      if image is None:
          raise ValueError(f"Failed to load image: {image_path}")
      preprocessed = preprocess_image(image)
      text = pytesseract.image_to_string(preprocessed, lang="eng+ces")
      return clean_text(text)
  except Exception as e:
      logger.error(f"Error extracting text from image: {str(e)}")
      raise
  \<close>
\<close>

definition anthropic_extract_text_from_image :: "world \<Rightarrow> string \<Rightarrow> string res" where
  "anthropic_extract_text_from_image w image_path =
     (case (if \<not> cv2_imread w image_path
            then raise (ValueError (''Failed to load image: '' @ image_path))
            else seq (lift (ocr_adaptive w image_path)) (\<lambda>text. ret (anthropic_clean_text text))) of
        (Inl e, l) \<Rightarrow> (Inl e, l @ [ERROR (''Error extracting text from image: '' @ str_exc e)])
      | (Inr text, l) \<Rightarrow> (Inr text, l))"

section \<open>The OpenAI-backend driver (\<open>ocr_tool.get_payload\<close>)\<close>

definition date_fields :: "string list" where
  "date_fields = [''dateInvoiced'', ''dateOfReceiving'', ''datePaid'', ''dueDate'']"

text \<open>
  \<^verbatim>\<open>
  for field in date_fields:
      final_data[field] = standardize_date(final_data.get(field))
  \<close>
\<close>

fun ocr_tool_date_loop ::
  "(string \<Rightarrow> exc + datetime) \<Rightarrow> string list \<Rightarrow> json \<Rightarrow> json res" where
  "ocr_tool_date_loop parse [] final_data = (Inr final_data, [])"
| "ocr_tool_date_loop parse (field # more_fields) final_data =
     (case py_get final_data field of
        Inl e \<Rightarrow> (Inl e, [])
      | Inr v \<Rightarrow>
          (case ocr_tool_standardize_date parse v of
             (d, l) \<Rightarrow>
               (case py_setitem final_data field d of
                  Inl e \<Rightarrow> (Inl e, l)
                | Inr final_data' \<Rightarrow>
                    (case ocr_tool_date_loop parse more_fields final_data' of
                       (r, l') \<Rightarrow> (r, l @ l')))))"

text \<open>
  What \<open>get_payload\<close> does to the parsed arguments before it appends them:
  \<^verbatim>\<open>
  date_fields = ["dateInvoiced", "dateOfReceiving", "datePaid", "dueDate"]
  for field in date_fields:
      final_data[field] = standardize_date(final_data.get(field))
  final_data["path"] = file_path
  \<close>
\<close>

definition ocr_tool_postprocess ::
  "(string \<Rightarrow> exc + datetime) \<Rightarrow> string \<Rightarrow> json \<Rightarrow> json res" where
  "ocr_tool_postprocess parse file_path final_data =
     seq (ocr_tool_date_loop parse date_fields final_data) (\<lambda>final_data.
       lift (py_setitem final_data ''path'' (JStr file_path)))"

text \<open>\<open>json.loads(arguments)\<close>: a \<open>TypeError\<close> on an object that is not a string.\<close>

definition loads :: "world \<Rightarrow> json \<Rightarrow> exc + json" where
  "loads w arguments =
     (case arguments of
        JStr s \<Rightarrow> json_loads w s
      | _ \<Rightarrow> Inl (OtherException (''the JSON object must be str, bytes or bytearray, not ''
                 @ py_type_name arguments)))"

text \<open>\<open>response_data["choices"][0]["message"]\<close>\<close>

definition assistant_reply_of :: "json \<Rightarrow> exc + json" where
  "assistant_reply_of response_data =
     (case py_getitem response_data ''choices'' of
        Inl e \<Rightarrow> Inl e
      | Inr choices \<Rightarrow>
          (case py_getitem0 choices of
             Inl e \<Rightarrow> Inl e
           | Inr choice \<Rightarrow> py_getitem choice ''message''))"

text \<open>
  \<^verbatim>\<open>
  if response.status_code == 200:
      response_data = response.json()
      assistant_reply = response_data["choices"][0]["message"]
      if "function_call" in assistant_reply:
          arguments = assistant_reply["function_call"]["arguments"]
          final_data = json.loads(arguments)
          ...
          result.append(final_data)
      else:
          logging.error("No function call in assistant's reply.")
          logging.error(f"Assistant's reply: {assistant_reply}")
  else:
      logging.error(f"API call failed with status: {response.status_code}")
      logging.error(response.text)
  \<close>
  The result is the record appended to \<open>result\<close>, if any.
\<close>

definition no_function_call_log :: "json \<Rightarrow> log_entry list" where
  "no_function_call_log assistant_reply =
     [ERROR (''No function call in assistant'' @ [CHR 0x27] @ ''s reply.''),
      ERROR_repr (''Assistant'' @ [CHR 0x27] @ ''s reply: '') assistant_reply]"

definition ocr_tool_handle_response :: "world \<Rightarrow> string \<Rightarrow> http_response \<Rightarrow> json option res" where
  "ocr_tool_handle_response w file_path response =
     (if status_code response = 200 then
        seq (lift (response_json response)) (\<lambda>response_data.
        seq (lift (assistant_reply_of response_data)) (\<lambda>assistant_reply.
        seq (lift (py_contains ''function_call'' assistant_reply)) (\<lambda>has_call.
          if has_call then
            seq (lift (py_getitem assistant_reply ''function_call'')) (\<lambda>function_call.
            seq (lift (py_getitem function_call ''arguments'')) (\<lambda>arguments.
            seq (lift (loads w arguments)) (\<lambda>final_data.
            seq (ocr_tool_postprocess (parse_date w) file_path final_data) (\<lambda>final_data.
              ret (Some final_data)))))
          else (Inr None, no_function_call_log assistant_reply))))
      else
        (Inr None,
         [ERROR (''API call failed with status: '' @ str_int (status_code response)),
          ERROR (response_text response)]))"

text \<open>
  The text of a document, \<open>None\<close> when the file is neither a PDF nor an image:
  \<^verbatim>\<open>
  mime = magic.Magic(mime=True)
  mime_type = mime.from_file(file_path)
  file_type, file_format = mime_type.split("/")
  text = None
  if file_format == "pdf":
      text = extract_text_from_pdf(file_path)
  elif file_type == "image":
      text = extract_text_from_image(file_path)
  \<close>
\<close>

definition ocr_tool_acquire :: "world \<Rightarrow> string \<Rightarrow> exc + string option" where
  "ocr_tool_acquire w file_path =
     (case mime_from_file w file_path of
        Inl e \<Rightarrow> Inl e
      | Inr mime_type \<Rightarrow>
          (case unpack2 (py_split (CHR ''/'') mime_type) of
             Inl e \<Rightarrow> Inl e
           | Inr (file_type, file_format) \<Rightarrow>
               if file_format = ''pdf''
               then map_sum id Some (ocr_tool_extract_text_from_pdf w file_path)
               else if file_type = ''image''
               then map_sum id Some (ocr_tool_extract_text_from_image w file_path)
               else Inr None))"

text \<open>
  One iteration of the loop of \<open>get_payload\<close>: nothing in it catches an exception.
  \<^verbatim>\<open>
  if not text:
      logging.error(f"Failed to extract text from: {file_path}")
      continue
  api_payload = {..., {"role": "user", "content": PROMPT + clean_text(text)}, ...}
  response = requests.post("https://api.openai.com/v1/chat/completions", ...)
  \<close>
\<close>

definition ocr_tool_process_file :: "config \<Rightarrow> world \<Rightarrow> string \<Rightarrow> json option res" where
  "ocr_tool_process_file cfg w file_path =
     seq (lift (ocr_tool_acquire w file_path)) (\<lambda>text.
       case text of
         Some (c # cs) \<Rightarrow>
           seq (lift (requests_post w (PROMPT cfg @ ocr_tool_clean_text (c # cs)))) (\<lambda>response.
             ocr_tool_handle_response w file_path response)
       | _ \<Rightarrow> (Inr None, [ERROR (''Failed to extract text from: '' @ file_path)]))"

text \<open>
  \<^verbatim>\<open>
  result = []
  for file_path in paths_list:
      ...
  return result
  \<close>
  An exception of one iteration leaves the loop and the function: the result is the
  exception, and the records collected so far are lost with it.
\<close>

fun ocr_tool_loop :: "config \<Rightarrow> world \<Rightarrow> string list \<Rightarrow> json list \<Rightarrow> json list res" where
  "ocr_tool_loop cfg w [] result = (Inr result, [])"
| "ocr_tool_loop cfg w (file_path # paths) result =
     (case ocr_tool_process_file cfg w file_path of
        (Inl e, l) \<Rightarrow> (Inl e, l)
      | (Inr r, l) \<Rightarrow>
          (case ocr_tool_loop cfg w paths (result @ opt_list r) of
             (r', l') \<Rightarrow> (r', l @ l')))"

definition ocr_tool_get_payload :: "config \<Rightarrow> world \<Rightarrow> string list \<Rightarrow> json list res" where
  "ocr_tool_get_payload cfg w paths_list = ocr_tool_loop cfg w paths_list []"

section \<open>The Anthropic-backend driver (\<open>ocr_tool_anthropic.get_payload\<close>)\<close>

text \<open>
  \<open>re.search(r'{[\s\S]*}', s)\<close>: the match runs from the first opening brace to the last
  closing brace after it.
\<close>

definition re_search_json :: "string \<Rightarrow> string option" where
  "re_search_json s =
     (case dropWhile (\<lambda>c. c \<noteq> CHR ''{'') s of
        [] \<Rightarrow> None
      | b # rest \<Rightarrow>
          (case dropWhile (\<lambda>c. c \<noteq> CHR ''}'') (rev rest) of
             [] \<Rightarrow> None
           | r # rs \<Rightarrow> Some (b # rev (r # rs))))"

text \<open>
  \<^verbatim>\<open>
  for date_field in final_data["dates"]:
      final_data["dates"][date_field] = standardize_date(
          final_data["dates"].get(date_field)
      )
  \<close>
  On a \<open>dict\<close> the loop visits its keys and replaces each value; \<open>standardize_date\<close> may
  raise. On a non-empty list or string the first \<open>.get\<close> raises \<open>AttributeError\<close>; an
  empty one is left as it is; any other object is not iterable.
\<close>

fun anthropic_dates_loop ::
  "(string \<Rightarrow> exc + datetime) \<Rightarrow> string list \<Rightarrow> dict \<Rightarrow> dict res" where
  "anthropic_dates_loop parse [] dates = (Inr dates, [])"
| "anthropic_dates_loop parse (date_field # more_fields) dates =
     (case anthropic_standardize_date parse
             (case map_of dates date_field of Some x \<Rightarrow> x | None \<Rightarrow> JNull) of
        (Inl e, l) \<Rightarrow> (Inl e, l)
      | (Inr d, l) \<Rightarrow>
          (case anthropic_dates_loop parse more_fields (AList.update date_field d dates) of
             (r, l') \<Rightarrow> (r, l @ l')))"

definition anthropic_standardize_dates ::
  "(string \<Rightarrow> exc + datetime) \<Rightarrow> json \<Rightarrow> json res" where
  "anthropic_standardize_dates parse dates =
     (case dates of
        JObj kvs \<Rightarrow>
          (case anthropic_dates_loop parse (map fst kvs) kvs of
             (Inl e, l) \<Rightarrow> (Inl e, l)
           | (Inr kvs', l) \<Rightarrow> (Inr (JObj kvs'), l))
      | JArr xs \<Rightarrow> if xs = [] then ret dates else raise (no_attribute dates ''get'')
      | JStr s \<Rightarrow> if s = [] then ret dates else raise (no_attribute dates ''get'')
      | _ \<Rightarrow> raise (OtherException (quote (py_type_name dates) @ '' object is not iterable'')))"

text \<open>
  \<^verbatim>\<open>
  final_data = json.loads(json_match.group(0))
  if "dates" in final_data:
      for date_field in final_data["dates"]: ...
  final_data["_source"] = {
      "path": file_path,
      "mime_type": mime_type,
      "extraction_method": "ocr" if file_type == "image" else "text"
  }
  result.append(final_data)
  \<close>
\<close>

definition source_object :: "string \<Rightarrow> string \<Rightarrow> string \<Rightarrow> json" where
  "source_object file_path mime_type file_type =
     JObj [(''path'', JStr file_path),
           (''mime_type'', JStr mime_type),
           (''extraction_method'', JStr (if file_type = ''image'' then ''ocr'' else ''text''))]"

definition anthropic_postprocess ::
  "(string \<Rightarrow> exc + datetime) \<Rightarrow> string \<Rightarrow> string \<Rightarrow> string \<Rightarrow> json \<Rightarrow> json res" where
  "anthropic_postprocess parse file_path mime_type file_type final_data =
     seq (lift (py_contains ''dates'' final_data)) (\<lambda>has_dates.
     seq (if has_dates then
            seq (lift (py_getitem final_data ''dates'')) (\<lambda>dates.
            seq (anthropic_standardize_dates parse dates) (\<lambda>dates'.
              lift (py_setitem final_data ''dates'' dates')))
          else ret final_data) (\<lambda>final_data.
       lift (py_setitem final_data ''_source'' (source_object file_path mime_type file_type))))"

text \<open>
  \<^verbatim>\<open>
  if not text.strip():
      logger.error(f"No text extracted from {file_path}")
      continue
  prompt = f"{anthropic.HUMAN_PROMPT}{PROMPT}\n\n{clean_text(text)}{anthropic.AI_PROMPT}"
  response = client.completions.create(model="claude-2", prompt=prompt, ...)
  if hasattr(response, 'completion'):
      json_match = re.search(r'{[\s\S]*}', response.completion)
      if json_match:
          ...
      else:
          logger.error("No JSON found in the response")
  else:
      logger.error("Response has no 'completion' attribute")
  \<close>
\<close>

definition anthropic_prompt :: "config \<Rightarrow> string \<Rightarrow> string" where
  "anthropic_prompt cfg text =
     HUMAN_PROMPT @ PROMPT cfg @ newline @ newline @ anthropic_clean_text text @ AI_PROMPT"

definition anthropic_extract ::
  "config \<Rightarrow> world \<Rightarrow> string \<Rightarrow> string \<Rightarrow> string \<Rightarrow> string \<Rightarrow> json option res" where
  "anthropic_extract cfg w file_path mime_type file_type text =
     (if py_strip text = [] then (Inr None, [ERROR (''No text extracted from '' @ file_path)])
      else
        seq (lift (completions_create w (anthropic_prompt cfg text))) (\<lambda>response.
          case response of
            None \<Rightarrow> (Inr None, [ERROR (''Response has no '' @ quote ''completion'' @ '' attribute'')])
          | Some completion \<Rightarrow>
              (case re_search_json completion of
                 None \<Rightarrow> (Inr None, [ERROR ''No JSON found in the response''])
               | Some m \<Rightarrow>
                   seq (lift (json_loads w m)) (\<lambda>final_data.
                   seq (anthropic_postprocess (parse_date w) file_path mime_type file_type
                          final_data) (\<lambda>final_data.
                     ret (Some final_data))))))"

text \<open>
  The first part of the body of the \<open>try\<close>: the MIME type and the text of the document,
  \<open>None\<close> when the file is neither a PDF nor an image.
  \<^verbatim>\<open>
  logger.info(f"Processing file: {file_path}")
  mime = magic.Magic(mime=True)
  mime_type = mime.from_file(file_path)
  file_type, file_format = mime_type.split("/")
  if file_format == "pdf":
      text = extract_text_from_pdf(file_path)
  elif file_type == "image":
      text = extract_text_from_image(file_path)
  else:
      logger.error(f"Unsupported file type: {mime_type}")
      continue
  \<close>
\<close>

definition anthropic_acquire ::
  "world \<Rightarrow> string \<Rightarrow> (string \<times> string \<times> string) option res" where
  "anthropic_acquire w file_path =
     seq (emit [INFO (''Processing file: '' @ file_path)]) (\<lambda>_.
     seq (lift (mime_from_file w file_path)) (\<lambda>mime_type.
     seq (lift (unpack2 (py_split (CHR ''/'') mime_type))) (\<lambda>(file_type, file_format).
       if file_format = ''pdf'' then
         seq (anthropic_extract_text_from_pdf w file_path) (\<lambda>text.
           ret (Some (mime_type, file_type, text)))
       else if file_type = ''image'' then
         seq (anthropic_extract_text_from_image w file_path) (\<lambda>text.
           ret (Some (mime_type, file_type, text)))
       else (Inr None, [ERROR (''Unsupported file type: '' @ mime_type)]))))"

definition anthropic_try :: "config \<Rightarrow> world \<Rightarrow> string \<Rightarrow> json option res" where
  "anthropic_try cfg w file_path =
     seq (anthropic_acquire w file_path) (\<lambda>acquired.
       case acquired of
         None \<Rightarrow> ret None
       | Some (mime_type, file_type, text) \<Rightarrow>
           anthropic_extract cfg w file_path mime_type file_type text)"

text \<open>
  The handlers of the \<open>try\<close>:
  \<^verbatim>\<open>
  except ValueError as error:
      logger.error(error)
  except Exception as e:
      logger.error(f"Error processing {file_path}: {str(e)}")
      logger.exception("Full traceback:")
  \<close>
  One iteration returns the record it appends, if any, and its log records; it never
  raises.
\<close>

definition anthropic_process_file ::
  "config \<Rightarrow> world \<Rightarrow> string \<Rightarrow> json option \<times> log_entry list" where
  "anthropic_process_file cfg w file_path =
     (case anthropic_try cfg w file_path of
        (Inl (ValueError m), l) \<Rightarrow> (None, l @ [ERROR m])
      | (Inl (OtherException m), l) \<Rightarrow>
          (None, l @ [ERROR (''Error processing '' @ file_path @ '': '' @ m),
                      ERROR ''Full traceback:''])
      | (Inr r, l) \<Rightarrow> (r, l))"

fun anthropic_loop ::
  "config \<Rightarrow> world \<Rightarrow> string list \<Rightarrow> json list \<Rightarrow> json list \<times> log_entry list" where
  "anthropic_loop cfg w [] result = (result, [])"
| "anthropic_loop cfg w (file_path # paths) result =
     (case anthropic_process_file cfg w file_path of
        (r, l) \<Rightarrow>
          (case anthropic_loop cfg w paths (result @ opt_list r) of
             (result', l') \<Rightarrow> (result', l @ l')))"

text \<open>
  \<^verbatim>\<open>
  if not ANTHROPIC_API_KEY:
      raise ValueError("ANTHROPIC_API_KEY not found in environment variables")
  client = anthropic.Client(api_key=ANTHROPIC_API_KEY)
  result = []
  for file_path in paths_list: ...
  return result
  \<close>
\<close>

definition anthropic_get_payload :: "config \<Rightarrow> world \<Rightarrow> string list \<Rightarrow> json list res" where
  "anthropic_get_payload cfg w paths_list =
     (if ANTHROPIC_API_KEY cfg = None \<or> ANTHROPIC_API_KEY cfg = Some []
      then raise (ValueError ''ANTHROPIC_API_KEY not found in environment variables'')
      else (case anthropic_loop cfg w paths_list [] of (result, l) \<Rightarrow> (Inr result, l)))"

text \<open>
  A page on which both library calls succeed, given by its embedded text and the text OCR
  reads from it, and what such a page adds to the transcript in each backend.
\<close>

definition successful_page :: "string option \<times> string \<Rightarrow> page" where
  "successful_page obs = \<lparr>extract_text = Inr (fst obs), page_ocr = Inr (snd obs)\<rparr>"

definition ocr_tool_piece :: "string option \<times> string \<Rightarrow> string" where
  "ocr_tool_piece obs = (case fst obs of Some (c # cs) \<Rightarrow> c # cs | _ \<Rightarrow> snd obs) @ newline"

definition anthropic_piece :: "string option \<times> string \<Rightarrow> string" where
  "anthropic_piece obs =
     (if usable_text (fst obs) then the (fst obs) else anthropic_clean_text (snd obs)) @ newline"

section \<open>What the backend returned for a document\<close>

text \<open>
  The value of \<open>arguments\<close> in the iteration of \<open>ocr_tool.get_payload\<close> for \<open>file_path\<close>, when
  the iteration reaches
  \<^verbatim>\<open>arguments = assistant_reply["function_call"]["arguments"]\<close>
  and the expression has a value: the text of the document is not empty, the request is
  answered with status 200, and the reply has a field \<open>function_call\<close> with a field
  \<open>arguments\<close>. \<open>None\<close> in every other case. The next statement of the source is
  \<open>final_data = json.loads(arguments)\<close>.
\<close>

definition ocr_tool_arguments :: "config \<Rightarrow> world \<Rightarrow> string \<Rightarrow> json option" where
  "ocr_tool_arguments cfg w file_path =
     (case ocr_tool_acquire w file_path of
        Inr (Some (c # cs)) \<Rightarrow>
          (case requests_post w (PROMPT cfg @ ocr_tool_clean_text (c # cs)) of
             Inr response \<Rightarrow>
               if status_code response = 200 then
                 (case response_json response of
                    Inr response_data \<Rightarrow>
                      (case assistant_reply_of response_data of
                         Inr assistant_reply \<Rightarrow>
                           if py_contains ''function_call'' assistant_reply = Inr True then
                             (case py_getitem assistant_reply ''function_call'' of
                                Inr function_call \<Rightarrow>
                                  (case py_getitem function_call ''arguments'' of
                                     Inr arguments \<Rightarrow> Some arguments
                                   | Inl e \<Rightarrow> None)
                              | Inl e \<Rightarrow> None)
                           else None
                       | Inl e \<Rightarrow> None)
                  | Inl e \<Rightarrow> None)
               else None
           | Inl e \<Rightarrow> None)
      | _ \<Rightarrow> None)"

text \<open>
  The values of \<open>mime_type\<close>, \<open>file_type\<close> and \<open>json_match.group(0)\<close> in the iteration of
  \<open>ocr_tool_anthropic.get_payload\<close> for \<open>file_path\<close>, when the iteration reaches
  \<^verbatim>\<open>final_data = json.loads(json_match.group(0))\<close>:
  the file is a PDF or an image whose text is not blank, the response has a completion,
  and the regular expression matches in it. \<open>None\<close> in every other case.
\<close>

definition anthropic_json_match ::
  "config \<Rightarrow> world \<Rightarrow> string \<Rightarrow> (string \<times> string \<times> string) option" where
  "anthropic_json_match cfg w file_path =
     (case anthropic_acquire w file_path of
        (Inr (Some (mime_type, file_type, text)), l) \<Rightarrow>
          if py_strip text = [] then None
          else
            (case completions_create w (anthropic_prompt cfg text) of
               Inr (Some completion) \<Rightarrow>
                 (case re_search_json completion of
                    Some m \<Rightarrow> Some (mime_type, file_type, m)
                  | None \<Rightarrow> None)
             | _ \<Rightarrow> None)
      | _ \<Rightarrow> None)"

section \<open>Documents whose answer has no structured call\<close>





section \<open>The field schema (\<open>data.FUNCTIONS\<close>)\<close>

text \<open>The properties of \<open>extract_invoice_data\<close> and its \<open>required\<close> list.\<close>

definition schema_fields :: "string list" where
  "schema_fields =
     [''name'', ''billingAddressCity'', ''billingAddressCountry'', ''billingAddressPostalCode'',
      ''billingAddressState'', ''billingAddressStreet'', ''constantSymbol'', ''dateInvoiced'',
      ''dateOfReceiving'', ''datePaid'', ''deliveryNotes'', ''dueDate'', ''duzp'',
      ''grandTotalAmount'', ''currency'', ''note'', ''originalNumber'', ''paymentMethod'',
      ''sicCode'', ''supplyCode'', ''taxAmount'', ''taxRate'', ''variableSymbol'', ''vatId'',
      ''weight'', ''amount'', ''invoiceItems'']"

definition required_fields :: "string list" where
  "required_fields = [''name'', ''currency'']"

section \<open>An example run\<close>

text \<open>
  Five documents. \<open>inv.pdf\<close> has two pages: the first with the embedded text
  \<open>Invoice #100\<close> (its scan reads \<open>lnvoice #I00\<close>), the second an image only, read by OCR as
  \<open>Total 5 EUR\<close>; both backends answer it with the object
  \<^verbatim>\<open>{"name": "ACME", "dueDate": "15/03/2024", "dateInvoiced": "none", "invoiceNumber": "100"}\<close>.
  \<open>memo.pdf\<close> is answered in prose, without a structured call. \<open>garbled.pdf\<close> (one page,
  \<open>Scan 7\<close>) is answered with a structured call whose text, \<open>{name: ACME}\<close>, is not JSON. The
  OCR of \<open>broken.pdf\<close> raises. The date parser reads \<open>15/03/2024\<close> and \<open>01.02.2023\<close> day first and rejects
  every other string.
\<close>

definition dq :: "string \<Rightarrow> string" where
  "dq s = [CHR 0x22] @ s @ [CHR 0x22]"

definition demo_json_text :: string where
  "demo_json_text =
     ''{'' @ dq ''name'' @ '': '' @ dq ''ACME'' @ '', '' @ dq ''dueDate'' @ '': '' @ dq ''15/03/2024''
       @ '', '' @ dq ''dateInvoiced'' @ '': '' @ dq ''none'' @ '', '' @ dq ''invoiceNumber'' @ '': ''
       @ dq ''100'' @ ''}''"

definition demo_raw :: json where
  "demo_raw =
     JObj [(''name'', JStr ''ACME''), (''dueDate'', JStr ''15/03/2024''),
           (''dateInvoiced'', JStr ''none''), (''invoiceNumber'', JStr ''100'')]"

text \<open>
  The answer to \<open>nested.pdf\<close> (one image-only page, read as \<open>Due 15/03/2024\<close>) nests its
  dates under the key \<open>dates\<close>.
\<close>

definition demo_nested_text :: string where
  "demo_nested_text =
     ''{'' @ dq ''dueDate'' @ '': '' @ dq ''15/03/2024'' @ '', '' @ dq ''dates'' @ '': {''
       @ dq ''dueDate'' @ '': '' @ dq ''15/03/2024'' @ '', '' @ dq ''datePaid'' @ '': '' @ dq ''None''
       @ ''}}''"

definition demo_nested :: json where
  "demo_nested =
     JObj [(''dueDate'', JStr ''15/03/2024''),
           (''dates'', JObj [(''dueDate'', JStr ''15/03/2024''), (''datePaid'', JStr ''None'')])]"

definition demo_garbled_text :: string where
  "demo_garbled_text = ''{name: ACME}''"

text \<open>The \<open>json.JSONDecodeError\<close> of \<open>json.loads('{name: ACME}')\<close>.\<close>

definition demo_decode_error :: exc where
  "demo_decode_error =
     ValueError ''Expecting property name enclosed in double quotes: line 1 column 2 (char 1)''"

definition demo_pages :: "string \<Rightarrow> exc + page list" where
  "demo_pages path =
     (if path = ''inv.pdf'' then
        Inr [\<lparr>extract_text = Inr (Some ''Invoice #100''), page_ocr = Inr ''lnvoice #I00''\<rparr>,
             \<lparr>extract_text = Inr None, page_ocr = Inr ''Total 5 EUR''\<rparr>]
      else if path = ''memo.pdf'' then
        Inr [\<lparr>extract_text = Inr (Some ''Hello''), page_ocr = Inr ''Hello''\<rparr>]
      else if path = ''nested.pdf'' then
        Inr [\<lparr>extract_text = Inr None, page_ocr = Inr ''Due 15/03/2024''\<rparr>]
      else if path = ''garbled.pdf'' then
        Inr [\<lparr>extract_text = Inr (Some ''Scan 7''), page_ocr = Inr ''Scan 7''\<rparr>]
      else if path = ''broken.pdf'' then
        Inr [\<lparr>extract_text = Inr None,
              page_ocr = Inl (OtherException ''OSError: cannot read the page image'')\<rparr>]
      else Inl (OtherException ''FileNotFoundError''))"

definition demo_post :: "string \<Rightarrow> exc + http_response" where
  "demo_post content =
     (if content = ''Extract: Invoice #100 Total 5 EUR'' then
        Inr \<lparr>status_code = 200,
              response_json = Inr (JObj [(''choices'', JArr [JObj [(''message'',
                JObj [(''role'', JStr ''assistant''), (''content'', JNull),
                      (''function_call'', JObj [(''name'', JStr ''extract_invoice_data''),
                         (''arguments'', JStr demo_json_text)])])]])]),
              response_text = []\<rparr>
      else if content = ''Extract: Scan 7'' then
        Inr \<lparr>status_code = 200,
              response_json = Inr (JObj [(''choices'', JArr [JObj [(''message'',
                JObj [(''role'', JStr ''assistant''), (''content'', JNull),
                      (''function_call'', JObj [(''name'', JStr ''extract_invoice_data''),
                         (''arguments'', JStr demo_garbled_text)])])]])]),
              response_text = []\<rparr>
      else
        Inr \<lparr>status_code = 200,
              response_json = Inr (JObj [(''choices'', JArr [JObj [(''message'',
                JObj [(''role'', JStr ''assistant''), (''content'', JStr ''No invoice here.'')])]])]),
              response_text = []\<rparr>)"

definition demo_complete :: "string \<Rightarrow> exc + string option" where
  "demo_complete prompt =
     (if prompt = anthropic_prompt \<lparr>PROMPT = ''Extract: '', ANTHROPIC_API_KEY = Some ''key''\<rparr>
                    ''1nvoice #I00 Tota1 5 EUR''
      then Inr (Some ('' Here is the data: '' @ demo_json_text))
      else if prompt = anthropic_prompt \<lparr>PROMPT = ''Extract: '', ANTHROPIC_API_KEY = Some ''key''\<rparr>
                    ''Due 15/03/2024''
      then Inr (Some demo_nested_text)
      else if prompt = anthropic_prompt \<lparr>PROMPT = ''Extract: '', ANTHROPIC_API_KEY = Some ''key''\<rparr>
                    ''Scan 7''
      then Inr (Some ('' Here is the data: '' @ demo_garbled_text))
      else Inr (Some '' No invoice here.''))"

definition demo_parse :: "string \<Rightarrow> exc + datetime" where
  "demo_parse s =
     (if s = ''15/03/2024'' then Inr \<lparr>dt_year = 2024, dt_month = 3, dt_day = 15\<rparr>
      else if s = ''01.02.2023'' then Inr \<lparr>dt_year = 2023, dt_month = 2, dt_day = 1\<rparr>
      else Inl (ValueError (''Unknown string format: '' @ s)))"

definition demo_world :: world where
  "demo_world =
     \<lparr>mime_from_file = (\<lambda>path. Inr ''application/pdf''),
      pdf_open = demo_pages,
      cv2_imread = (\<lambda>path. False),
      cv2_error = ''OpenCV(4.8.0) /io/opencv/modules/imgproc/src/color.cpp:182: error: ''
        @ ''(-215:Assertion failed) !_src.empty() in function '' @ quote ''cvtColor'' @ newline,
      ocr_threshold = (\<lambda>path. Inr []),
      ocr_adaptive = (\<lambda>path. Inr []),
      requests_post = demo_post,
      completions_create = demo_complete,
      json_loads = (\<lambda>s. if s = demo_json_text then Inr demo_raw
                          else if s = demo_nested_text then Inr demo_nested
                          else if s = demo_garbled_text
                          then Inl demo_decode_error
                          else Inl (ValueError ''Expecting value: line 1 column 1 (char 0)'')),
      parse_date = demo_parse\<rparr>"

definition demo_config :: config where
  "demo_config = \<lparr>PROMPT = ''Extract: '', ANTHROPIC_API_KEY = Some ''key''\<rparr>"

text \<open>The records the two drivers make of \<open>inv.pdf\<close>, and the Anthropic one of \<open>nested.pdf\<close>.\<close>

definition demo_openai_fields :: dict where
  "demo_openai_fields =
     [(''name'', JStr ''ACME''), (''dueDate'', JStr ''2024-03-15''),
      (''dateInvoiced'', JStr ''none''), (''invoiceNumber'', JStr ''100''),
      (''dateOfReceiving'', JStr ''none''), (''datePaid'', JStr ''none''),
      (''path'', JStr ''inv.pdf'')]"

definition demo_anthropic_fields :: dict where
  "demo_anthropic_fields =
     [(''name'', JStr ''ACME''), (''dueDate'', JStr ''15/03/2024''),
      (''dateInvoiced'', JStr ''none''), (''invoiceNumber'', JStr ''100''),
      (''_source'', JObj [(''path'', JStr ''inv.pdf''), (''mime_type'', JStr ''application/pdf''),
                        (''extraction_method'', JStr ''text'')])]"

definition demo_nested_fields :: dict where
  "demo_nested_fields =
     [(''dueDate'', JStr ''15/03/2024''),
      (''dates'', JObj [(''dueDate'', JStr ''2024-03-15''), (''datePaid'', JNull)]),
      (''_source'', JObj [(''path'', JStr ''nested.pdf''), (''mime_type'', JStr ''application/pdf''),
                        (''extraction_method'', JStr ''text'')])]"

section \<open>Properties of the string operations\<close>

lemma isspace_space: "isspace (CHR '' '')"
  by (simp add: isspace_def)

lemma dropWhile_fixed: "xs = [] \<or> \<not> P (hd xs) \<Longrightarrow> dropWhile P xs = xs"
  by (cases xs) auto

lemma dropWhile_keeps_last: "\<not> P h \<Longrightarrow> \<exists>zs. dropWhile P (ys @ [h]) = zs @ [h]"
  by (induction ys) auto

lemma dropWhile_rev_hd:
  assumes "t \<noteq> []" and "\<not> P (hd t)"
  shows "\<exists>zs. rev (dropWhile P (rev t)) = hd t # zs"
proof (cases t)
  case Nil
  with assms(1) show ?thesis by simp
next
  case (Cons h r)
  with assms(2) have "\<not> P h" by simp
  then have "\<exists>zs. dropWhile P (rev r @ [h]) = zs @ [h]"
    by (rule dropWhile_keeps_last)
  then obtain zs where "dropWhile P (rev r @ [h]) = zs @ [h]" ..
  then have "rev (dropWhile P (rev t)) = hd t # rev zs" unfolding Cons by simp
  then show ?thesis ..
qed

lemma py_strip_no_leading: "py_strip s = [] \<or> \<not> isspace (hd (py_strip s))"
proof (cases "dropWhile isspace s = []")
  case True
  have "py_strip s = []" unfolding py_strip_def True by simp
  then show ?thesis by simp
next
  case False
  then have "\<not> isspace (hd (dropWhile isspace s))" by (rule hd_dropWhile)
  with False have
    "\<exists>zs. rev (dropWhile isspace (rev (dropWhile isspace s))) = hd (dropWhile isspace s) # zs"
    by (rule dropWhile_rev_hd)
  then obtain zs where
    "rev (dropWhile isspace (rev (dropWhile isspace s))) = hd (dropWhile isspace s) # zs" ..
  with \<open>\<not> isspace (hd (dropWhile isspace s))\<close> show ?thesis by (simp add: py_strip_def)
qed

lemma py_strip_no_trailing: "py_strip s = [] \<or> \<not> isspace (last (py_strip s))"
proof (cases "dropWhile isspace (rev (dropWhile isspace s)) = []")
  case True
  have "py_strip s = []" unfolding py_strip_def True by simp
  then show ?thesis by simp
next
  case False
  then have "\<not> isspace (hd (dropWhile isspace (rev (dropWhile isspace s))))"
    by (rule hd_dropWhile)
  with False show ?thesis by (simp add: py_strip_def last_rev)
qed

lemma py_strip_fixed:
  assumes "s = [] \<or> (\<not> isspace (hd s) \<and> \<not> isspace (last s))"
  shows "py_strip s = s"
proof (cases "s = []")
  case True
  then show ?thesis by (simp add: py_strip_def)
next
  case False
  with assms have h: "\<not> isspace (hd s)" and l: "\<not> isspace (last s)" by simp_all
  from False h have "dropWhile isspace s = s" by (simp add: dropWhile_fixed)
  moreover from False l have "dropWhile isspace (rev s) = rev s"
    by (simp add: dropWhile_fixed hd_rev)
  ultimately show ?thesis by (simp add: py_strip_def)
qed

lemma py_strip_idem: "py_strip (py_strip s) = py_strip s"
  using py_strip_no_leading [of s] py_strip_no_trailing [of s]
  by (intro py_strip_fixed) auto

lemma single_spaced_tl: "single_spaced (c # cs) \<Longrightarrow> single_spaced cs"
  by (cases cs) auto

lemma single_spaced_dropWhile: "single_spaced s \<Longrightarrow> single_spaced (dropWhile P s)"
  by (induction s) (auto dest: single_spaced_tl)

lemma single_spaced_prefix: "single_spaced (xs @ ys) \<Longrightarrow> single_spaced xs"
proof (induction xs rule: single_spaced.induct)
  case 1
  then show ?case by simp
next
  case (2 c)
  then show ?case by (cases ys) auto
next
  case (3 c d cs)
  then show ?case by auto
qed

lemma single_spaced_strip: "single_spaced s \<Longrightarrow> single_spaced (py_strip s)"
proof -
  assume s: "single_spaced s"
  let ?t = "dropWhile isspace s"
  have "?t = rev (dropWhile isspace (rev ?t)) @ rev (takeWhile isspace (rev ?t))"
    by (metis rev_append rev_rev_ident takeWhile_dropWhile_id)
  moreover from s have "single_spaced ?t" by (rule single_spaced_dropWhile)
  ultimately have "single_spaced (rev (dropWhile isspace (rev ?t)))"
    using single_spaced_prefix by metis
  then show ?thesis by (simp add: py_strip_def)
qed

lemma re_sub_ws_single_spaced: "single_spaced (re_sub_ws s)"
proof (induction s rule: re_sub_ws.induct)
  case 1
  then show ?case by simp
next
  case (2 c cs)
  show ?case
  proof (cases "isspace c")
    case True
    let ?t = "dropWhile isspace cs"
    show ?thesis
    proof (cases ?t)
      case Nil
      have "re_sub_ws (c # cs) = [CHR '' '']"
        unfolding re_sub_ws.simps Nil using True by simp
      then show ?thesis by simp
    next
      case (Cons d ds)
      have "?t \<noteq> []" unfolding Cons by simp
      then have "\<not> isspace (hd ?t)" by (rule hd_dropWhile)
      then have d: "\<not> isspace d" unfolding Cons by simp
      from 2(1) True have "single_spaced (re_sub_ws (d # ds))" unfolding Cons by simp
      moreover have "re_sub_ws (c # cs) = CHR '' '' # re_sub_ws (d # ds)"
        unfolding re_sub_ws.simps Cons using True by simp
      ultimately show ?thesis using d by simp
    qed
  next
    case False
    with 2(2) show ?thesis by (cases "re_sub_ws cs") auto
  qed
qed

lemma re_sub_ws_fixed: "single_spaced s \<Longrightarrow> re_sub_ws s = s"
  by (induction s rule: single_spaced.induct) auto

text \<open>
  The plain normalizer of \<open>ocr_tool\<close> is idempotent: its output is single-spaced and has no
  white space at either end, so a second pass changes nothing.
\<close>

lemma ocr_tool_clean_text_idempotent:
  "ocr_tool_clean_text (ocr_tool_clean_text x) = ocr_tool_clean_text x"
proof -
  have "single_spaced (py_strip (re_sub_ws x))"
    by (intro single_spaced_strip re_sub_ws_single_spaced)
  then have "re_sub_ws (py_strip (re_sub_ws x)) = py_strip (re_sub_ws x)"
    by (rule re_sub_ws_fixed)
  then show ?thesis by (simp add: ocr_tool_clean_text_def py_strip_idem)
qed

text \<open>
  What does hold of the stricter cleaner's output: the empty input gives the empty string;
  no character is \<open>|\<close>, \<open>l\<close> or \<open>O\<close>; every character is printable, so the only white
  space in it is the space; and it neither starts nor ends with white space.
\<close>

lemma set_py_strip: "set (py_strip s) \<subseteq> set s"
proof
  fix x
  assume "x \<in> set (py_strip s)"
  then have "x \<in> set (dropWhile isspace (rev (dropWhile isspace s)))"
    by (simp add: py_strip_def)
  then have "x \<in> set (rev (dropWhile isspace s))" by (rule set_dropWhileD)
  then have "x \<in> set (dropWhile isspace s)" by simp
  then show "x \<in> set s" by (rule set_dropWhileD)
qed

lemma py_replace_mem:
  assumes "x \<in> set (py_replace a b xs)"
  shows "(x = b \<or> x \<in> set xs) \<and> (a \<noteq> b \<longrightarrow> x \<noteq> a)"
  using assms by (auto simp: py_replace_def split: if_splits)

lemma anthropic_clean_text_empty: "anthropic_clean_text [] = []"
  by (simp add: anthropic_clean_text_def)

lemma anthropic_clean_text_chars:
  assumes "c \<in> set (anthropic_clean_text s)"
  shows "c \<noteq> CHR ''|'' \<and> c \<noteq> CHR ''l'' \<and> c \<noteq> CHR ''O'' \<and> isprintable c"
proof -
  let ?t1 = "re_sub_ws s"
  let ?t2 = "py_replace (CHR ''|'') (CHR ''I'') ?t1"
  let ?t3 = "py_replace (CHR ''l'') (CHR ''1'') ?t2"
  let ?t4 = "py_replace (CHR ''O'') (CHR ''0'') ?t3"
  from assms have nonempty: "s \<noteq> []"
    by (auto simp: anthropic_clean_text_def)
  with assms have "c \<in> set (py_strip (filter isprintable ?t4))"
    by (simp add: anthropic_clean_text_def Let_def)
  with set_py_strip have "c \<in> set (filter isprintable ?t4)" by blast
  then have printable: "isprintable c" and c4: "c \<in> set ?t4" by simp_all
  from py_replace_mem [OF c4] have no_O: "c \<noteq> CHR ''O''"
    and from3: "c = CHR ''0'' \<or> c \<in> set ?t3"
    by simp_all
  have no_l: "c \<noteq> CHR ''l''" and from2: "c = CHR ''0'' \<or> c = CHR ''1'' \<or> c \<in> set ?t2"
    using from3 py_replace_mem [of c "CHR ''l''" "CHR ''1''" ?t2] by auto
  have no_bar: "c \<noteq> CHR ''|''"
    using from2 py_replace_mem [of c "CHR ''|''" "CHR ''I''" ?t1] by auto
  from no_bar no_l no_O printable show ?thesis by simp
qed

lemma printable_space: "isspace c \<Longrightarrow> isprintable c \<Longrightarrow> c = CHR '' ''"
proof -
  assume "isspace c" and "isprintable c"
  then have "(of_char c :: nat) = 32"
    by (auto simp: isspace_def isprintable_def Let_def)
  then have "(of_char c :: nat) = of_char (CHR '' '')" by simp
  then show ?thesis by (simp only: of_char_eq_iff)
qed

lemma anthropic_clean_text_spaces:
  assumes "c \<in> set (anthropic_clean_text s)" and "isspace c"
  shows "c = CHR '' ''"
  using anthropic_clean_text_chars [OF assms(1)] assms(2) by (simp add: printable_space)

lemma anthropic_clean_text_edges:
  "anthropic_clean_text s = []
   \<or> (\<not> isspace (hd (anthropic_clean_text s)) \<and> \<not> isspace (last (anthropic_clean_text s)))"
proof (cases "s = []")
  case True
  then show ?thesis by (simp add: anthropic_clean_text_def)
next
  case False
  let ?t = "filter isprintable (py_replace (CHR ''O'') (CHR ''0'')
      (py_replace (CHR ''l'') (CHR ''1'') (py_replace (CHR ''|'') (CHR ''I'') (re_sub_ws s))))"
  from False have "anthropic_clean_text s = py_strip ?t"
    by (simp add: anthropic_clean_text_def Let_def)
  with py_strip_no_leading [of ?t] py_strip_no_trailing [of ?t] show ?thesis by auto
qed

section \<open>Text normalization: the stricter cleaner\<close>

text \<open>
  C5 (idempotence of text normalization). The plain normalizer is idempotent
  (\<open>ocr_tool_clean_text_idempotent\<close>); the stricter cleaner of the Anthropic backend is not.
  It collapses white space before it drops the non-printable characters, so a soft hyphen
  (0xAD, not printable, not white space) standing between two spaces leaves two adjacent
  spaces behind, which only a second pass collapses: on \<open>"a \xad b"\<close> the first pass
  returns \<open>"a  b"\<close> and the second pass returns \<open>"a b"\<close>.
\<close>

theorem anthropic_clean_text_second_pass_differs:
  "anthropic_clean_text [CHR ''a'', CHR '' '', CHR 0xAD, CHR '' '', CHR ''b''] = ''a  b''
   \<and> anthropic_clean_text (anthropic_clean_text [CHR ''a'', CHR '' '', CHR 0xAD, CHR '' '', CHR ''b''])
       = ''a b''"
  by (simp add: anthropic_clean_text_def py_replace_def py_strip_def isspace_def isprintable_def)

text \<open>
  C10 (shape of the stricter cleaner's output). The output has none of the characters
  \<open>|\<close>, \<open>l\<close>, \<open>O\<close>, no non-printable character and no white space at either end, and the
  empty input gives the empty string, but an interior white-space run can be longer than
  one space: on \<open>"x \x00 y"\<close> (a NUL between two spaces) the output is \<open>"x  y"\<close>, with two
  spaces in a row.
\<close>

theorem anthropic_clean_text_double_space:
  "anthropic_clean_text [CHR ''x'', CHR '' '', CHR 0x00, CHR '' '', CHR ''y'']
     = [CHR ''x'', CHR '' '', CHR '' '', CHR ''y'']"
  by (simp add: anthropic_clean_text_def py_replace_def py_strip_def isspace_def isprintable_def)

section \<open>Sentinels of the Anthropic date standardizer\<close>

text \<open>
  C9. In the Anthropic-backend extractor \<open>standardize_date\<close> returns \<open>None\<close> for \<open>None\<close>
  and for every string whose lower-case form is \<open>none\<close>, \<open>null\<close> or the empty string. It
  does so whatever the date parser would answer, and writes no log record: the parser is
  not called.
\<close>

theorem anthropic_standardize_date_sentinel:
  assumes "date_str = JNull \<or> (date_str = JStr s \<and> py_lower s \<in> set [''none'', ''null'', []])"
  shows "anthropic_standardize_date parse date_str = (Inr JNull, [])"
  using assms by (auto simp: anthropic_standardize_date_def ret_def)

theorem anthropic_standardize_date_sentinel_witness:
  "py_lower ''NULL'' \<in> set [''none'', ''null'', []]
   \<and> anthropic_standardize_date demo_parse (JStr ''NULL'') = (Inr JNull, [])
   \<and> py_lower ''None'' \<in> set [''none'', ''null'', []]
   \<and> anthropic_standardize_date demo_parse (JStr ''None'') = (Inr JNull, [])
   \<and> anthropic_standardize_date demo_parse JNull = (Inr JNull, [])"
proof -
  have upper: "py_lower ''NULL'' = ''null''" by code_simp
  have mixed: "py_lower ''None'' = ''none''" by code_simp
  show ?thesis
    using anthropic_standardize_date_sentinel [of "JStr ''NULL''" "''NULL''" demo_parse]
      anthropic_standardize_date_sentinel [of "JStr ''None''" "''None''" demo_parse]
      anthropic_standardize_date_sentinel [of JNull "[]" demo_parse]
    by (simp add: upper mixed)
qed

section \<open>The payment-method default\<close>

lemma set_invoice_step_map_of:
  assumes "map_of payload key = Some v"
  shows "map_of (set_invoice_step (key, v) payload) = (map_of payload)(key \<mapsto> normalized_value key v)"
  using assms
  by (auto simp: set_invoice_step_def normalized_value_def Let_def update_conv' fun_upd_idem)

lemma set_invoice_fold_map_of:
  assumes "distinct (map fst items)" and "\<forall>(key, v) \<in> set items. map_of payload key = Some v"
  shows "map_of (fold set_invoice_step items payload) k =
           (case map_of items k of
              Some v \<Rightarrow> Some (normalized_value k v)
            | None \<Rightarrow> map_of payload k)"
  using assms
proof (induction items arbitrary: payload)
  case Nil
  then show ?case by simp
next
  case (Cons item items)
  obtain key v where item: "item = (key, v)" by (cases item)
  from Cons.prems(2) item have here: "map_of payload key = Some v" by simp
  let ?p = "set_invoice_step (key, v) payload"
  have step: "map_of ?p = (map_of payload)(key \<mapsto> normalized_value key v)"
    using here by (rule set_invoice_step_map_of)
  from Cons.prems(1) item have fresh: "key \<notin> fst ` set items" and dist: "distinct (map fst items)"
    by simp_all
  have rest: "\<forall>(key', v') \<in> set items. map_of ?p key' = Some v'"
  proof (clarify)
    fix key' v'
    assume mem: "(key', v') \<in> set items"
    with fresh have "key' \<noteq> key" by force
    moreover from Cons.prems(2) mem have "map_of payload key' = Some v'" by auto
    ultimately show "map_of ?p key' = Some v'" by (simp add: step)
  qed
  have absent: "map_of items key = None"
    using fresh by (simp add: map_of_eq_None_iff)
  have "map_of (fold set_invoice_step items ?p) k =
          (case map_of items k of Some v \<Rightarrow> Some (normalized_value k v) | None \<Rightarrow> map_of ?p k)"
    using dist rest by (rule Cons.IH)
  then show ?case
    using absent by (simp add: item step split: option.splits)
qed

lemma set_invoice_fields_map_of:
  assumes "distinct (map fst payload)"
  shows "map_of (set_invoice_fields payload) k = map_option (normalized_value k) (map_of payload k)"
proof -
  from assms have "\<forall>(key, v) \<in> set payload. map_of payload key = Some v" by auto
  with assms have "map_of (fold set_invoice_step payload payload) k =
      (case map_of payload k of Some v \<Rightarrow> Some (normalized_value k v) | None \<Rightarrow> map_of payload k)"
    by (rule set_invoice_fold_map_of)
  then show ?thesis by (simp add: set_invoice_fields_def split: option.splits)
qed

text \<open>
  C4, as stated, fails: a record without the key \<open>paymentMethod\<close> is left without it. The
  loop of \<open>set_invoice\<close> visits only the keys the record has.
\<close>

theorem payment_method_missing_counterexample:
  "map_of (set_invoice_fields [(''name'', JStr ''ACME'')]) ''paymentMethod'' \<noteq> Some (JStr ''draft'')"
  by (simp add: set_invoice_fields_def set_invoice_step_def)

text \<open>
  C4, amended. When the record has the key \<open>paymentMethod\<close> with the value \<open>"none"\<close> or
  \<open>None\<close>, the normalized record has \<open>paymentMethod == "draft"\<close>; any other value is kept;
  a record without the key stays without it.
\<close>

theorem payment_method_default:
  assumes "distinct (map fst payload)"
  shows "map_of (set_invoice_fields payload) ''paymentMethod'' =
           (case map_of payload ''paymentMethod'' of
              None \<Rightarrow> None
            | Some v \<Rightarrow> Some (if v = JStr ''none'' \<or> v = JNull then JStr ''draft'' else v))"
  using set_invoice_fields_map_of [OF assms, of "''paymentMethod''"]
  by (auto simp: normalized_value_def split: option.splits)

theorem payment_method_default_witness:
  "distinct (map fst [(''name'', JStr ''ACME''), (''paymentMethod'', JStr ''none'')])
   \<and> map_of (set_invoice_fields [(''name'', JStr ''ACME''), (''paymentMethod'', JStr ''none'')])
        ''paymentMethod'' = Some (JStr ''draft'')"
  using payment_method_default [of "[(''name'', JStr ''ACME''), (''paymentMethod'', JStr ''none'')]"]
  by simp

section \<open>The transcript of a PDF\<close>

lemma ocr_tool_page_successful: "ocr_tool_page (successful_page obs) = Inr (ocr_tool_piece obs)"
  by (cases obs)
    (simp add: ocr_tool_page_def successful_page_def ocr_tool_piece_def
      split: option.splits list.splits)

lemma ocr_tool_pdf_loop_successful:
  "ocr_tool_pdf_loop (map successful_page obs) acc = Inr (acc @ concat (map ocr_tool_piece obs))"
  by (induction obs arbitrary: acc) (simp_all add: ocr_tool_page_successful)

lemma anthropic_page_successful:
  "fst (anthropic_page n_pages page_num (successful_page obs)) = Inr (anthropic_piece obs)"
  by (simp add: anthropic_page_def successful_page_def anthropic_piece_def seq_def emit_def
      lift_def ret_def)

lemma anthropic_pdf_loop_successful:
  "fst (anthropic_pdf_loop n_pages page_num (map successful_page obs) acc) =
     Inr (acc @ concat (map anthropic_piece obs))"
proof (induction obs arbitrary: page_num acc)
  case Nil
  then show ?case by simp
next
  case (Cons ob obs)
  obtain l where page: "anthropic_page n_pages page_num (successful_page ob) = (Inr (anthropic_piece ob), l)"
    using anthropic_page_successful [of n_pages page_num ob]
    by (cases "anthropic_page n_pages page_num (successful_page ob)") simp
  obtain r l' where rest: "anthropic_pdf_loop n_pages (Suc page_num) (map successful_page obs)
      (acc @ anthropic_piece ob) = (r, l')"
    by (cases "anthropic_pdf_loop n_pages (Suc page_num) (map successful_page obs)
      (acc @ anthropic_piece ob)")
  from Cons.IH [of "Suc page_num" "acc @ anthropic_piece ob"] rest
  have "r = Inr (acc @ anthropic_piece ob @ concat (map anthropic_piece obs))" by simp
  then show ?case by (simp add: page rest)
qed

lemma anthropic_extract_text_from_pdf_successful:
  assumes "pdf_open w pdf_path = Inr (map successful_page obs)"
  shows "fst (anthropic_extract_text_from_pdf w pdf_path) = Inr (concat (map anthropic_piece obs))"
proof -
  obtain l where loop: "anthropic_pdf_loop (length obs) 1 (map successful_page obs) [] =
      (Inr (concat (map anthropic_piece obs)), l)"
    using anthropic_pdf_loop_successful [of "length obs" 1 obs "[]"]
    by (cases "anthropic_pdf_loop (length obs) 1 (map successful_page obs) []") simp
  show ?thesis
    using loop
    by (simp add: anthropic_extract_text_from_pdf_def assms seq_def lift_def emit_def ret_def)
qed

text \<open>
  C6, as stated, fails in the Anthropic backend: a page's embedded text is used only when
  its stripped length is above 50, so the twelve characters of \<open>Invoice #100\<close> are
  discarded and page 1 contributes the cleaned OCR reading of its image.
\<close>

theorem anthropic_short_page_counterexample:
  "pdf_open demo_world ''inv.pdf'' =
     Inr [\<lparr>extract_text = Inr (Some ''Invoice #100''), page_ocr = Inr ''lnvoice #I00''\<rparr>,
          \<lparr>extract_text = Inr None, page_ocr = Inr ''Total 5 EUR''\<rparr>]
   \<and> fst (anthropic_extract_text_from_pdf demo_world ''inv.pdf'') =
       Inr (''1nvoice #I00'' @ newline @ ''Tota1 5 EUR'' @ newline)
   \<and> fst (anthropic_extract_text_from_pdf demo_world ''inv.pdf'') \<noteq>
       Inr (''Invoice #100'' @ newline @ ''Total 5 EUR'')"
  by code_simp

text \<open>
  C6, amended. When the library calls succeed, the transcript of a PDF is the
  concatenation, in page order, of one piece per page, each piece ended by a newline (so
  the transcript itself ends with a newline). In the OpenAI backend the piece is the
  page's embedded text when that text is not empty and the raw OCR output otherwise; in
  the Anthropic backend it is the embedded text when its stripped length is above 50 and
  the OCR output passed through \<open>clean_text\<close> otherwise. For a two-page document whose
  first page has the embedded text \<open>Invoice #100\<close> and whose second page has none, the
  OpenAI backend gives \<open>Invoice #100\<close>, a newline, the OCR output of page 2 and
  a newline; the Anthropic backend gives the cleaned OCR outputs of both pages.
\<close>

theorem pdf_transcript:
  assumes "pdf_open w pdf_path = Inr (map successful_page obs)"
  shows "ocr_tool_extract_text_from_pdf w pdf_path = Inr (concat (map ocr_tool_piece obs))
    \<and> fst (anthropic_extract_text_from_pdf w pdf_path) = Inr (concat (map anthropic_piece obs))
    \<and> (obs = [(Some ''Invoice #100'', ocr1), (None, ocr2)] \<longrightarrow>
         ocr_tool_extract_text_from_pdf w pdf_path =
           Inr (''Invoice #100'' @ newline @ ocr2 @ newline)
         \<and> fst (anthropic_extract_text_from_pdf w pdf_path) =
           Inr (anthropic_clean_text ocr1 @ newline @ anthropic_clean_text ocr2 @ newline))"
proof -
  have openai: "ocr_tool_extract_text_from_pdf w pdf_path = Inr (concat (map ocr_tool_piece obs))"
    by (simp add: ocr_tool_extract_text_from_pdf_def assms ocr_tool_pdf_loop_successful)
  have anthropic: "fst (anthropic_extract_text_from_pdf w pdf_path) =
      Inr (concat (map anthropic_piece obs))"
    using assms by (rule anthropic_extract_text_from_pdf_successful)
  have short: "\<not> usable_text (Some ''Invoice #100'')"
    by (simp add: usable_text_def py_strip_def isspace_def)
  show ?thesis
    using openai anthropic short
    by (auto simp: ocr_tool_piece_def anthropic_piece_def usable_text_def)
qed

theorem pdf_transcript_witness:
  "pdf_open demo_world ''inv.pdf'' =
     Inr (map successful_page [(Some ''Invoice #100'', ''lnvoice #I00''), (None, ''Total 5 EUR'')])
   \<and> ocr_tool_extract_text_from_pdf demo_world ''inv.pdf'' =
       Inr (''Invoice #100'' @ newline @ ''Total 5 EUR'' @ newline)
   \<and> fst (anthropic_extract_text_from_pdf demo_world ''inv.pdf'') =
       Inr (anthropic_clean_text ''lnvoice #I00'' @ newline @ anthropic_clean_text ''Total 5 EUR''
            @ newline)"
proof -
  have opened: "pdf_open demo_world ''inv.pdf'' =
      Inr (map successful_page [(Some ''Invoice #100'', ''lnvoice #I00''), (None, ''Total 5 EUR'')])"
    by (simp add: demo_world_def demo_pages_def successful_page_def)
  have "ocr_tool_extract_text_from_pdf demo_world ''inv.pdf'' =
       Inr (''Invoice #100'' @ newline @ ''Total 5 EUR'' @ newline)
   \<and> fst (anthropic_extract_text_from_pdf demo_world ''inv.pdf'') =
       Inr (anthropic_clean_text ''lnvoice #I00'' @ newline @ anthropic_clean_text ''Total 5 EUR''
            @ newline)"
    using pdf_transcript [OF opened, of "''lnvoice #I00''" "''Total 5 EUR''"] by blast
  with opened show ?thesis by blast
qed

section \<open>Sequencing\<close>

lemma seq_Inr:
  assumes "seq m f = (Inr y, l)"
  obtains x l1 l2 where "m = (Inr x, l1)" and "f x = (Inr y, l2)" and "l = l1 @ l2"
  using assms by (auto simp: seq_def split: prod.splits sum.splits)

lemma lift_Inr: "lift r = (Inr x, l) \<longleftrightarrow> r = Inr x \<and> l = []"
  by (auto simp: lift_def)

lemma ret_Inr: "ret x = (Inr y, l) \<longleftrightarrow> x = y \<and> l = []"
  by (auto simp: ret_def)

lemma seq_lift_Inr: "seq (lift (Inr x)) f = f x"
  by (simp add: seq_def lift_def split: prod.splits)


section \<open>What the drivers do to a parsed object\<close>

lemma ocr_tool_date_loop_dict:
  assumes "distinct fs"
  shows "\<exists>out l. ocr_tool_date_loop parse fs (JObj raw) = (Inr (JObj out), l)
           \<and> fst ` set out = fst ` set raw \<union> set fs
           \<and> (distinct (map fst raw) \<longrightarrow> distinct (map fst out))
           \<and> (\<forall>k. map_of out k =
                 (if k \<in> set fs
                  then Some (fst (ocr_tool_standardize_date parse
                          (case map_of raw k of Some x \<Rightarrow> x | None \<Rightarrow> JNull)))
                  else map_of raw k))"
  using assms
proof (induction fs arbitrary: raw)
  case Nil
  then show ?case by simp
next
  case (Cons f fs)
  let ?v = "case map_of raw f of Some x \<Rightarrow> x | None \<Rightarrow> JNull"
  obtain d l0 where std: "ocr_tool_standardize_date parse ?v = (d, l0)"
    by (cases "ocr_tool_standardize_date parse ?v")
  let ?raw' = "AList.update f d raw"
  from Cons.prems have fresh: "f \<notin> set fs" and dist: "distinct fs" by simp_all
  from Cons.IH [OF dist, of ?raw'] obtain out l where
    loop: "ocr_tool_date_loop parse fs (JObj ?raw') = (Inr (JObj out), l)"
    and keys: "fst ` set out = fst ` set ?raw' \<union> set fs"
    and distinct: "distinct (map fst ?raw') \<longrightarrow> distinct (map fst out)"
    and vals: "\<forall>k. map_of out k =
                 (if k \<in> set fs
                  then Some (fst (ocr_tool_standardize_date parse
                          (case map_of ?raw' k of Some x \<Rightarrow> x | None \<Rightarrow> JNull)))
                  else map_of ?raw' k)"
    by blast
  have run: "ocr_tool_date_loop parse (f # fs) (JObj raw) = (Inr (JObj out), l0 @ l)"
    by (simp add: py_get_def py_setitem_def std loop)
  have k1: "fst ` set out = fst ` set raw \<union> set (f # fs)"
    using keys by (simp add: dom_update)
  have k2: "distinct (map fst raw) \<longrightarrow> distinct (map fst out)"
    using distinct by (simp add: distinct_update)
  have k3: "\<forall>k. map_of out k =
                 (if k \<in> set (f # fs)
                  then Some (fst (ocr_tool_standardize_date parse
                          (case map_of raw k of Some x \<Rightarrow> x | None \<Rightarrow> JNull)))
                  else map_of raw k)"
  proof
    fix k
    show "map_of out k =
                 (if k \<in> set (f # fs)
                  then Some (fst (ocr_tool_standardize_date parse
                          (case map_of raw k of Some x \<Rightarrow> x | None \<Rightarrow> JNull)))
                  else map_of raw k)"
    proof (cases "k = f")
      case True
      with vals fresh std show ?thesis by (simp add: update_conv')
    next
      case False
      with vals show ?thesis by (simp add: update_conv')
    qed
  qed
  from run k1 k2 k3 show ?case by blast
qed

lemma ocr_tool_date_loop_not_dict:
  assumes "\<forall>raw. final_data \<noteq> JObj raw"
  shows "\<exists>e l. ocr_tool_date_loop parse (f # fs) final_data = (Inl e, l)"
  using assms by (cases final_data) (simp_all add: py_get_def)

lemma ocr_tool_postprocess_dict:
  "\<exists>out l. ocr_tool_postprocess parse file_path (JObj raw) = (Inr (JObj out), l)
     \<and> fst ` set out = fst ` set raw \<union> set date_fields \<union> {''path''}
     \<and> (distinct (map fst raw) \<longrightarrow> distinct (map fst out))
     \<and> map_of out ''path'' = Some (JStr file_path)
     \<and> (\<forall>k \<in> set date_fields. map_of out k =
           Some (fst (ocr_tool_standardize_date parse
                   (case map_of raw k of Some x \<Rightarrow> x | None \<Rightarrow> JNull))))
     \<and> (\<forall>k. k \<notin> set date_fields \<and> k \<noteq> ''path'' \<longrightarrow> map_of out k = map_of raw k)"
proof -
  have "distinct date_fields" by (simp add: date_fields_def)
  from ocr_tool_date_loop_dict [OF this, of parse raw] obtain mid l where
    loop: "ocr_tool_date_loop parse date_fields (JObj raw) = (Inr (JObj mid), l)"
    and keys: "fst ` set mid = fst ` set raw \<union> set date_fields"
    and distinct: "distinct (map fst raw) \<longrightarrow> distinct (map fst mid)"
    and vals: "\<forall>k. map_of mid k =
                 (if k \<in> set date_fields
                  then Some (fst (ocr_tool_standardize_date parse
                          (case map_of raw k of Some x \<Rightarrow> x | None \<Rightarrow> JNull)))
                  else map_of raw k)"
    by blast
  let ?out = "AList.update ''path'' (JStr file_path) mid"
  have run: "ocr_tool_postprocess parse file_path (JObj raw) = (Inr (JObj ?out), l)"
    by (simp add: ocr_tool_postprocess_def seq_def lift_def loop py_setitem_def)
  have not_date: "''path'' \<notin> set date_fields" by (simp add: date_fields_def)
  have "fst ` set ?out = fst ` set raw \<union> set date_fields \<union> {''path''}"
    using keys by (auto simp: dom_update)
  moreover have "distinct (map fst raw) \<longrightarrow> distinct (map fst ?out)"
    using distinct by (simp add: distinct_update)
  moreover have "map_of ?out ''path'' = Some (JStr file_path)"
    by (simp add: update_conv')
  moreover have "\<forall>k \<in> set date_fields. map_of ?out k =
           Some (fst (ocr_tool_standardize_date parse
                   (case map_of raw k of Some x \<Rightarrow> x | None \<Rightarrow> JNull)))"
    using vals not_date by (auto simp: update_conv')
  moreover have "\<forall>k. k \<notin> set date_fields \<and> k \<noteq> ''path'' \<longrightarrow> map_of ?out k = map_of raw k"
    using vals by (simp add: update_conv')
  ultimately show ?thesis using run by blast
qed

lemma ocr_tool_postprocess_Inr_dict:
  assumes "ocr_tool_postprocess parse file_path final_data = (Inr record, l)"
  shows "\<exists>raw. final_data = JObj raw"
proof (rule ccontr)
  assume "\<not> (\<exists>raw. final_data = JObj raw)"
  then have "\<forall>raw. final_data \<noteq> JObj raw" by simp
  then obtain e l' where
    "ocr_tool_date_loop parse (''dateInvoiced'' # [''dateOfReceiving'', ''datePaid'', ''dueDate''])
       final_data = (Inl e, l')"
    using ocr_tool_date_loop_not_dict by blast
  then have "ocr_tool_postprocess parse file_path final_data = (Inl e, l')"
    by (simp add: ocr_tool_postprocess_def date_fields_def seq_def)
  with assms show False by simp
qed

lemma anthropic_postprocess_Inr_dict:
  assumes "anthropic_postprocess parse file_path mime_type file_type final_data = (Inr record, l)"
  shows "\<exists>raw. final_data = JObj raw"
  using assms
  by (cases final_data)
    (simp_all add: anthropic_postprocess_def seq_def lift_def ret_def py_contains_def
      py_getitem_def py_setitem_def split: if_splits)

lemma anthropic_postprocess_dict:
  assumes "anthropic_postprocess parse file_path mime_type file_type (JObj raw) = (Inr record, l)"
  shows "\<exists>out. record = JObj out
     \<and> out = AList.update ''_source'' (source_object file_path mime_type file_type)
               (case map_of raw ''dates'' of
                  None \<Rightarrow> raw
                | Some dates \<Rightarrow>
                    (case anthropic_standardize_dates parse dates of
                       (Inr dates', l') \<Rightarrow> AList.update ''dates'' dates' raw
                     | (Inl e, l') \<Rightarrow> raw))
     \<and> (\<forall>dates. map_of raw ''dates'' = Some dates \<longrightarrow>
           (\<exists>dates' l'. anthropic_standardize_dates parse dates = (Inr dates', l')))"
proof (cases "map_of raw ''dates''")
  case None
  then have "''dates'' \<notin> fst ` set raw" by (simp add: map_of_eq_None_iff)
  with assms None show ?thesis
    by (auto simp: anthropic_postprocess_def seq_def lift_def ret_def py_contains_def
        py_setitem_def)
next
  case (Some dates)
  then have mem: "''dates'' \<in> fst ` set raw" by (metis map_of_eq_None_iff option.distinct(1))
  obtain r l' where std: "anthropic_standardize_dates parse dates = (r, l')"
    by (cases "anthropic_standardize_dates parse dates")
  show ?thesis
  proof (cases r)
    case (Inl e)
    with assms Some mem std show ?thesis
      by (simp add: anthropic_postprocess_def seq_def lift_def ret_def py_contains_def
          py_getitem_def)
  next
    case (Inr dates')
    with assms Some mem std show ?thesis
      by (auto simp: anthropic_postprocess_def seq_def lift_def ret_def py_contains_def
          py_getitem_def py_setitem_def)
  qed
qed

section \<open>The loops of the drivers\<close>

text \<open>
  The Anthropic driver catches every exception inside the iteration: its result is the
  records of the iterations that produced one, in the order of the paths, and each
  iteration depends on its own path only.
\<close>

lemma anthropic_loop_eq:
  "anthropic_loop cfg w paths acc =
     (acc @ concat (map (\<lambda>p. opt_list (fst (anthropic_process_file cfg w p))) paths),
      concat (map (\<lambda>p. snd (anthropic_process_file cfg w p)) paths))"
  by (induction paths arbitrary: acc) (simp_all split: prod.splits)


lemma anthropic_get_payload_Inr:
  assumes "anthropic_get_payload cfg w paths = (Inr records, l)"
  shows "records = concat (map (\<lambda>p. opt_list (fst (anthropic_process_file cfg w p))) paths)"
  using assms
  by (auto simp: anthropic_get_payload_def anthropic_loop_eq raise_def split: if_splits)

text \<open>
  The OpenAI driver has no handler: the first iteration that raises ends the run with
  that exception.
\<close>

lemma ocr_tool_loop_Inr:
  assumes "ocr_tool_loop cfg w paths acc = (Inr records, l)"
  shows "(\<forall>p \<in> set paths. \<exists>r. fst (ocr_tool_process_file cfg w p) = Inr r)
    \<and> records = acc @ concat (map (\<lambda>p. case fst (ocr_tool_process_file cfg w p) of
                                           Inr r \<Rightarrow> opt_list r | Inl e \<Rightarrow> []) paths)"
  using assms
proof (induction paths arbitrary: acc l)
  case Nil
  then show ?case by simp
next
  case (Cons p paths)
  obtain r0 l0 where here: "ocr_tool_process_file cfg w p = (r0, l0)"
    by (cases "ocr_tool_process_file cfg w p")
  show ?case
  proof (cases r0)
    case (Inl e)
    with Cons.prems here show ?thesis by simp
  next
    case (Inr r)
    obtain r' l' where rest: "ocr_tool_loop cfg w paths (acc @ opt_list r) = (r', l')"
      by (cases "ocr_tool_loop cfg w paths (acc @ opt_list r)")
    with Cons.prems here Inr have "r' = Inr records" by simp
    with rest have "ocr_tool_loop cfg w paths (acc @ opt_list r) = (Inr records, l')" by simp
    from Cons.IH [OF this] here Inr show ?thesis by simp
  qed
qed


lemma ocr_tool_loop_raises:
  assumes "p \<in> set paths" and "fst (ocr_tool_process_file cfg w p) = Inl e"
  shows "\<exists>e' l. ocr_tool_loop cfg w paths acc = (Inl e', l)"
proof (rule ccontr)
  assume "\<not> (\<exists>e' l. ocr_tool_loop cfg w paths acc = (Inl e', l))"
  then obtain records l where "ocr_tool_loop cfg w paths acc = (Inr records, l)"
    by (cases "ocr_tool_loop cfg w paths acc") (metis sum.exhaust_sel)
  then have "\<forall>p \<in> set paths. \<exists>r. fst (ocr_tool_process_file cfg w p) = Inr r"
    by (rule ocr_tool_loop_Inr [THEN conjunct1])
  with assms show False by auto
qed

section \<open>Every record comes from the answer for its document\<close>

lemma loads_Inr:
  assumes "loads w arguments = Inr final_data"
  shows "\<exists>s. arguments = JStr s \<and> json_loads w s = Inr final_data"
  using assms by (cases arguments) (auto simp: loads_def)

text \<open>
  Once \<open>arguments\<close> has a value, the rest of the iteration of the OpenAI driver is
  \<open>json.loads\<close>, the date loop and the append.
\<close>

lemma ocr_tool_process_file_arguments:
  assumes "ocr_tool_arguments cfg w file_path = Some arguments"
  shows "ocr_tool_process_file cfg w file_path =
     seq (lift (loads w arguments)) (\<lambda>final_data.
     seq (ocr_tool_postprocess (parse_date w) file_path final_data) (\<lambda>final_data.
       ret (Some final_data)))"
proof -
  from assms obtain c cs where acq: "ocr_tool_acquire w file_path = Inr (Some (c # cs))"
    by (auto simp: ocr_tool_arguments_def split: sum.splits option.splits list.splits)
  with assms obtain response where
    post: "requests_post w (PROMPT cfg @ ocr_tool_clean_text (c # cs)) = Inr response"
    by (auto simp: ocr_tool_arguments_def split: sum.splits)
  with assms acq have ok: "status_code response = 200"
    by (auto simp: ocr_tool_arguments_def split: if_splits)
  with assms acq post obtain response_data where
    js: "response_json response = Inr response_data"
    by (auto simp: ocr_tool_arguments_def split: sum.splits)
  with assms acq post ok obtain assistant_reply where
    reply: "assistant_reply_of response_data = Inr assistant_reply"
    by (auto simp: ocr_tool_arguments_def split: sum.splits)
  with assms acq post ok js have has: "py_contains ''function_call'' assistant_reply = Inr True"
    by (auto simp: ocr_tool_arguments_def split: if_splits)
  with assms acq post ok js reply obtain function_call where
    call: "py_getitem assistant_reply ''function_call'' = Inr function_call"
    by (auto simp: ocr_tool_arguments_def split: sum.splits)
  with assms acq post ok js reply has have
    args: "py_getitem function_call ''arguments'' = Inr arguments"
    by (auto simp: ocr_tool_arguments_def split: sum.splits)
  have "ocr_tool_handle_response w file_path response =
     seq (lift (loads w arguments)) (\<lambda>final_data.
     seq (ocr_tool_postprocess (parse_date w) file_path final_data) (\<lambda>final_data.
       ret (Some final_data)))"
    by (simp add: ocr_tool_handle_response_def ok js reply has call args seq_lift_Inr)
  then show ?thesis
    by (simp add: ocr_tool_process_file_def acq post seq_lift_Inr)
qed

lemma ocr_tool_handle_response_record:
  assumes "ocr_tool_handle_response w file_path response = (Inr (Some record), l)"
  shows "\<exists>response_data assistant_reply function_call arguments.
           status_code response = 200
         \<and> response_json response = Inr response_data
         \<and> assistant_reply_of response_data = Inr assistant_reply
         \<and> py_contains ''function_call'' assistant_reply = Inr True
         \<and> py_getitem assistant_reply ''function_call'' = Inr function_call
         \<and> py_getitem function_call ''arguments'' = Inr arguments"
proof (cases "status_code response = 200")
  case False
  with assms show ?thesis by (simp add: ocr_tool_handle_response_def)
next
  case True
  with assms have run:
    "seq (lift (response_json response)) (\<lambda>response_data.
     seq (lift (assistant_reply_of response_data)) (\<lambda>assistant_reply.
     seq (lift (py_contains ''function_call'' assistant_reply)) (\<lambda>has_call.
       if has_call then
         seq (lift (py_getitem assistant_reply ''function_call'')) (\<lambda>function_call.
         seq (lift (py_getitem function_call ''arguments'')) (\<lambda>arguments.
         seq (lift (loads w arguments)) (\<lambda>final_data.
         seq (ocr_tool_postprocess (parse_date w) file_path final_data) (\<lambda>final_data.
           ret (Some final_data)))))
       else (Inr None, no_function_call_log assistant_reply)))) = (Inr (Some record), l)"
    by (simp add: ocr_tool_handle_response_def)
  from run obtain response_data l0 l1 where
    js: "lift (response_json response) = (Inr response_data, l0)"
    and s1: "seq (lift (assistant_reply_of response_data)) (\<lambda>assistant_reply.
     seq (lift (py_contains ''function_call'' assistant_reply)) (\<lambda>has_call.
       if has_call then
         seq (lift (py_getitem assistant_reply ''function_call'')) (\<lambda>function_call.
         seq (lift (py_getitem function_call ''arguments'')) (\<lambda>arguments.
         seq (lift (loads w arguments)) (\<lambda>final_data.
         seq (ocr_tool_postprocess (parse_date w) file_path final_data) (\<lambda>final_data.
           ret (Some final_data)))))
       else (Inr None, no_function_call_log assistant_reply))) = (Inr (Some record), l1)"
    by (rule seq_Inr)
  from s1 obtain assistant_reply l2 l3 where
    reply: "lift (assistant_reply_of response_data) = (Inr assistant_reply, l2)"
    and s2: "seq (lift (py_contains ''function_call'' assistant_reply)) (\<lambda>has_call.
       if has_call then
         seq (lift (py_getitem assistant_reply ''function_call'')) (\<lambda>function_call.
         seq (lift (py_getitem function_call ''arguments'')) (\<lambda>arguments.
         seq (lift (loads w arguments)) (\<lambda>final_data.
         seq (ocr_tool_postprocess (parse_date w) file_path final_data) (\<lambda>final_data.
           ret (Some final_data)))))
       else (Inr None, no_function_call_log assistant_reply)) = (Inr (Some record), l3)"
    by (rule seq_Inr)
  from s2 obtain has_call l4 l5 where
    has: "lift (py_contains ''function_call'' assistant_reply) = (Inr has_call, l4)"
    and s3: "(if has_call then
         seq (lift (py_getitem assistant_reply ''function_call'')) (\<lambda>function_call.
         seq (lift (py_getitem function_call ''arguments'')) (\<lambda>arguments.
         seq (lift (loads w arguments)) (\<lambda>final_data.
         seq (ocr_tool_postprocess (parse_date w) file_path final_data) (\<lambda>final_data.
           ret (Some final_data)))))
       else (Inr None, no_function_call_log assistant_reply)) = (Inr (Some record), l5)"
    by (rule seq_Inr)
  from s3 have yes: "has_call" by (cases has_call) simp_all
  with s3 have s4:
    "seq (lift (py_getitem assistant_reply ''function_call'')) (\<lambda>function_call.
     seq (lift (py_getitem function_call ''arguments'')) (\<lambda>arguments.
     seq (lift (loads w arguments)) (\<lambda>final_data.
     seq (ocr_tool_postprocess (parse_date w) file_path final_data) (\<lambda>final_data.
       ret (Some final_data))))) = (Inr (Some record), l5)"
    by simp
  from s4 obtain function_call l6 l7 where
    call: "lift (py_getitem assistant_reply ''function_call'') = (Inr function_call, l6)"
    and s5: "seq (lift (py_getitem function_call ''arguments'')) (\<lambda>arguments.
     seq (lift (loads w arguments)) (\<lambda>final_data.
     seq (ocr_tool_postprocess (parse_date w) file_path final_data) (\<lambda>final_data.
       ret (Some final_data)))) = (Inr (Some record), l7)"
    by (rule seq_Inr)
  from s5 obtain arguments l8 l9 where
    args: "lift (py_getitem function_call ''arguments'') = (Inr arguments, l8)"
    by (rule seq_Inr)
  from True js reply has yes call args show ?thesis
    by (simp add: lift_Inr)
qed

lemma ocr_tool_process_file_reaches_arguments:
  assumes "ocr_tool_process_file cfg w file_path = (Inr (Some record), l)"
  shows "\<exists>arguments. ocr_tool_arguments cfg w file_path = Some arguments"
proof -
  from assms obtain acquired l1 l2 where
    acq: "lift (ocr_tool_acquire w file_path) = (Inr acquired, l1)"
    and rest: "(case acquired of
         Some (c # cs) \<Rightarrow>
           seq (lift (requests_post w (PROMPT cfg @ ocr_tool_clean_text (c # cs)))) (\<lambda>response.
             ocr_tool_handle_response w file_path response)
       | _ \<Rightarrow> (Inr None, [ERROR (''Failed to extract text from: '' @ file_path)]))
       = (Inr (Some record), l2)"
    unfolding ocr_tool_process_file_def by (rule seq_Inr)
  from rest obtain c cs where body: "acquired = Some (c # cs)"
    by (auto split: option.splits list.splits)
  with rest body have
    "seq (lift (requests_post w (PROMPT cfg @ ocr_tool_clean_text (c # cs)))) (\<lambda>response.
       ocr_tool_handle_response w file_path response) = (Inr (Some record), l2)"
    by simp
  then obtain response l3 l4 where
    post: "lift (requests_post w (PROMPT cfg @ ocr_tool_clean_text (c # cs))) = (Inr response, l3)"
    and "ocr_tool_handle_response w file_path response = (Inr (Some record), l4)"
    by (rule seq_Inr)
  from ocr_tool_handle_response_record [OF this(2)]
  obtain response_data assistant_reply function_call arguments where
    "status_code response = 200"
    and "response_json response = Inr response_data"
    and "assistant_reply_of response_data = Inr assistant_reply"
    and "py_contains ''function_call'' assistant_reply = Inr True"
    and "py_getitem assistant_reply ''function_call'' = Inr function_call"
    and "py_getitem function_call ''arguments'' = Inr arguments"
    by blast
  with acq body post have "ocr_tool_arguments cfg w file_path = Some arguments"
    by (simp add: ocr_tool_arguments_def lift_Inr)
  then show ?thesis ..
qed

lemma ocr_tool_process_file_record:
  assumes "ocr_tool_process_file cfg w file_path = (Inr (Some record), l)"
  shows "\<exists>arguments final_data l'.
           ocr_tool_arguments cfg w file_path = Some arguments
         \<and> loads w arguments = Inr final_data
         \<and> ocr_tool_postprocess (parse_date w) file_path final_data = (Inr record, l')"
proof -
  from assms obtain arguments where
    args: "ocr_tool_arguments cfg w file_path = Some arguments"
    using ocr_tool_process_file_reaches_arguments by blast
  with assms have
    "seq (lift (loads w arguments)) (\<lambda>final_data.
     seq (ocr_tool_postprocess (parse_date w) file_path final_data) (\<lambda>final_data.
       ret (Some final_data))) = (Inr (Some record), l)"
    by (simp add: ocr_tool_process_file_arguments)
  then obtain final_data l1 l2 where
    parsed: "lift (loads w arguments) = (Inr final_data, l1)"
    and s: "seq (ocr_tool_postprocess (parse_date w) file_path final_data) (\<lambda>final_data.
       ret (Some final_data)) = (Inr (Some record), l2)"
    by (rule seq_Inr)
  from s obtain record' l3 l4 where
    post: "ocr_tool_postprocess (parse_date w) file_path final_data = (Inr record', l3)"
    and "ret (Some record') = (Inr (Some record), l4)"
    by (rule seq_Inr)
  then have "record' = record" by (simp add: ret_Inr)
  with args parsed post show ?thesis by (auto simp: lift_Inr)
qed

text \<open>
  The same for the Anthropic driver: once the regular expression has matched, the rest of
  the body of the \<open>try\<close> is \<open>json.loads\<close>, the date loop under \<open>dates\<close> and the append; the
  log records of the text acquisition come first.
\<close>

lemma anthropic_try_json_match:
  assumes "anthropic_json_match cfg w file_path = Some (mime_type, file_type, m)"
  shows "anthropic_try cfg w file_path =
     seq (emit (snd (anthropic_acquire w file_path))) (\<lambda>_.
     seq (lift (json_loads w m)) (\<lambda>final_data.
     seq (anthropic_postprocess (parse_date w) file_path mime_type file_type final_data)
       (\<lambda>final_data. ret (Some final_data))))"
proof -
  from assms obtain transcript l0 where
    acq: "anthropic_acquire w file_path = (Inr (Some (mime_type, file_type, transcript)), l0)"
    by (auto simp: anthropic_json_match_def
        split: prod.splits sum.splits option.splits if_splits)
  with assms have nonempty: "py_strip transcript \<noteq> []"
    by (auto simp: anthropic_json_match_def split: if_splits)
  with assms acq obtain completion where
    resp: "completions_create w (anthropic_prompt cfg transcript) = Inr (Some completion)"
    by (auto simp: anthropic_json_match_def split: sum.splits option.splits)
  with assms acq nonempty have found: "re_search_json completion = Some m"
    by (auto simp: anthropic_json_match_def split: option.splits)
  have "anthropic_extract cfg w file_path mime_type file_type transcript =
     seq (lift (json_loads w m)) (\<lambda>final_data.
     seq (anthropic_postprocess (parse_date w) file_path mime_type file_type final_data)
       (\<lambda>final_data. ret (Some final_data)))"
    by (simp add: anthropic_extract_def nonempty resp found seq_lift_Inr)
  then show ?thesis
    by (simp add: anthropic_try_def acq seq_def emit_def split: prod.splits)
qed

lemma anthropic_extract_reaches_match:
  assumes "anthropic_extract cfg w file_path mime_type file_type transcript = (Inr (Some record), l)"
  shows "\<exists>completion m. py_strip transcript \<noteq> []
           \<and> completions_create w (anthropic_prompt cfg transcript) = Inr (Some completion)
           \<and> re_search_json completion = Some m"
proof (cases "py_strip transcript = []")
  case True
  with assms show ?thesis by (simp add: anthropic_extract_def)
next
  case False
  with assms obtain response l0 l1 where
    resp: "lift (completions_create w (anthropic_prompt cfg transcript)) = (Inr response, l0)"
    and r: "(case response of
            None \<Rightarrow> (Inr None, [ERROR (''Response has no '' @ quote ''completion'' @ '' attribute'')])
          | Some completion \<Rightarrow>
              (case re_search_json completion of
                 None \<Rightarrow> (Inr None, [ERROR ''No JSON found in the response''])
               | Some m \<Rightarrow>
                   seq (lift (json_loads w m)) (\<lambda>final_data.
                   seq (anthropic_postprocess (parse_date w) file_path mime_type file_type
                          final_data) (\<lambda>final_data.
                     ret (Some final_data))))) = (Inr (Some record), l1)"
    unfolding anthropic_extract_def by (simp only: if_False) (erule seq_Inr)
  from r obtain completion m where "response = Some completion"
    and "re_search_json completion = Some m"
    by (auto split: option.splits)
  with False resp show ?thesis by (simp add: lift_Inr)
qed

lemma anthropic_process_file_reaches_match:
  assumes "anthropic_process_file cfg w file_path = (Some record, l)"
  shows "\<exists>mime_type file_type m. anthropic_json_match cfg w file_path = Some (mime_type, file_type, m)"
proof -
  obtain r l0 where t: "anthropic_try cfg w file_path = (r, l0)"
    by (cases "anthropic_try cfg w file_path")
  with assms have "r = Inr (Some record)"
    by (cases r) (auto simp: anthropic_process_file_def split: exc.splits)
  with t have "anthropic_try cfg w file_path = (Inr (Some record), l0)" by simp
  then obtain acquired l1 l2 where
    acq: "anthropic_acquire w file_path = (Inr acquired, l1)"
    and rest: "(case acquired of
         None \<Rightarrow> ret None
       | Some (mime_type, file_type, transcript) \<Rightarrow>
           anthropic_extract cfg w file_path mime_type file_type transcript) = (Inr (Some record), l2)"
    unfolding anthropic_try_def by (rule seq_Inr)
  from rest obtain mime_type file_type transcript where
    some: "acquired = Some (mime_type, file_type, transcript)"
    and "anthropic_extract cfg w file_path mime_type file_type transcript = (Inr (Some record), l2)"
    by (auto simp: ret_Inr split: option.splits)
  from anthropic_extract_reaches_match [OF this(2)] obtain completion m where
    "py_strip transcript \<noteq> []"
    and "completions_create w (anthropic_prompt cfg transcript) = Inr (Some completion)"
    and "re_search_json completion = Some m"
    by blast
  with acq some have "anthropic_json_match cfg w file_path = Some (mime_type, file_type, m)"
    by (simp add: anthropic_json_match_def)
  then show ?thesis by blast
qed

lemma anthropic_process_file_record:
  assumes "anthropic_process_file cfg w file_path = (Some record, l)"
  shows "\<exists>mime_type file_type m final_data l'.
           anthropic_json_match cfg w file_path = Some (mime_type, file_type, m)
         \<and> json_loads w m = Inr final_data
         \<and> anthropic_postprocess (parse_date w) file_path mime_type file_type final_data
               = (Inr record, l')"
proof -
  from assms obtain mime_type file_type m where
    found: "anthropic_json_match cfg w file_path = Some (mime_type, file_type, m)"
    using anthropic_process_file_reaches_match by blast
  obtain r l0 where t: "anthropic_try cfg w file_path = (r, l0)"
    by (cases "anthropic_try cfg w file_path")
  with assms have "r = Inr (Some record)"
    by (cases r) (auto simp: anthropic_process_file_def split: exc.splits)
  with t have
    "seq (emit (snd (anthropic_acquire w file_path))) (\<lambda>_.
     seq (lift (json_loads w m)) (\<lambda>final_data.
     seq (anthropic_postprocess (parse_date w) file_path mime_type file_type final_data)
       (\<lambda>final_data. ret (Some final_data)))) = (Inr (Some record), l0)"
    by (simp add: anthropic_try_json_match [OF found])
  then obtain u l1 l2 where
    "seq (lift (json_loads w m)) (\<lambda>final_data.
     seq (anthropic_postprocess (parse_date w) file_path mime_type file_type final_data)
       (\<lambda>final_data. ret (Some final_data))) = (Inr (Some record), l2)"
    by (rule seq_Inr)
  then obtain final_data l3 l4 where
    parsed: "lift (json_loads w m) = (Inr final_data, l3)"
    and s: "seq (anthropic_postprocess (parse_date w) file_path mime_type file_type final_data)
       (\<lambda>final_data. ret (Some final_data)) = (Inr (Some record), l4)"
    by (rule seq_Inr)
  from s obtain record' l5 l6 where
    post: "anthropic_postprocess (parse_date w) file_path mime_type file_type final_data
             = (Inr record', l5)"
    and "ret (Some record') = (Inr (Some record), l6)"
    by (rule seq_Inr)
  then have "record' = record" by (simp add: ret_Inr)
  with found parsed post show ?thesis by (auto simp: lift_Inr)
qed

text \<open>The MIME type of the match is the one the library gave for the file.\<close>

lemma anthropic_acquire_mime:
  assumes "anthropic_acquire w file_path = (Inr (Some (mime_type, file_type, transcript)), l)"
  shows "mime_from_file w file_path = Inr mime_type
       \<and> (\<exists>file_format. py_split (CHR ''/'') mime_type = [file_type, file_format])"
proof -
  from assms obtain u l0 l1 where
    s1: "seq (lift (mime_from_file w file_path)) (\<lambda>mime_type.
     seq (lift (unpack2 (py_split (CHR ''/'') mime_type))) (\<lambda>(file_type, file_format).
       if file_format = ''pdf'' then
         seq (anthropic_extract_text_from_pdf w file_path) (\<lambda>text.
           ret (Some (mime_type, file_type, text)))
       else if file_type = ''image'' then
         seq (anthropic_extract_text_from_image w file_path) (\<lambda>text.
           ret (Some (mime_type, file_type, text)))
       else (Inr None, [ERROR (''Unsupported file type: '' @ mime_type)])))
       = (Inr (Some (mime_type, file_type, transcript)), l1)"
    unfolding anthropic_acquire_def by (rule seq_Inr)
  from s1 obtain mt l2 l3 where
    mime: "lift (mime_from_file w file_path) = (Inr mt, l2)"
    and s2: "seq (lift (unpack2 (py_split (CHR ''/'') mt))) (\<lambda>(file_type, file_format).
       if file_format = ''pdf'' then
         seq (anthropic_extract_text_from_pdf w file_path) (\<lambda>text.
           ret (Some (mt, file_type, text)))
       else if file_type = ''image'' then
         seq (anthropic_extract_text_from_image w file_path) (\<lambda>text.
           ret (Some (mt, file_type, text)))
       else (Inr None, [ERROR (''Unsupported file type: '' @ mt)]))
       = (Inr (Some (mime_type, file_type, transcript)), l3)"
    by (rule seq_Inr)
  from s2 obtain parts l4 l5 where
    unpack: "lift (unpack2 (py_split (CHR ''/'') mt)) = (Inr parts, l4)"
    and s3: "(case parts of (file_type, file_format) \<Rightarrow>
       if file_format = ''pdf'' then
         seq (anthropic_extract_text_from_pdf w file_path) (\<lambda>text.
           ret (Some (mt, file_type, text)))
       else if file_type = ''image'' then
         seq (anthropic_extract_text_from_image w file_path) (\<lambda>text.
           ret (Some (mt, file_type, text)))
       else (Inr None, [ERROR (''Unsupported file type: '' @ mt)]))
       = (Inr (Some (mime_type, file_type, transcript)), l5)"
    by (rule seq_Inr)
  obtain ft ff where parts: "parts = (ft, ff)" by (cases parts)
  from s3 parts have same: "mt = mime_type \<and> ft = file_type"
    by (auto simp: ret_Inr elim!: seq_Inr split: if_splits)
  from unpack parts have "unpack2 (py_split (CHR ''/'') mt) = Inr (ft, ff)"
    by (simp add: lift_Inr)
  then have "py_split (CHR ''/'') mt = [ft, ff]"
    by (auto simp: unpack2_def split: list.splits)
  with mime same show ?thesis by (auto simp: lift_Inr)
qed

lemma anthropic_json_match_mime:
  assumes "anthropic_json_match cfg w file_path = Some (mime_type, file_type, m)"
  shows "mime_from_file w file_path = Inr mime_type
       \<and> (\<exists>file_format. py_split (CHR ''/'') mime_type = [file_type, file_format])"
proof -
  from assms obtain transcript l0 where
    "anthropic_acquire w file_path = (Inr (Some (mime_type, file_type, transcript)), l0)"
    by (auto simp: anthropic_json_match_def
        split: prod.splits sum.splits option.splits if_splits)
  then show ?thesis by (rule anthropic_acquire_mime)
qed

section \<open>The keys of a record\<close>

text \<open>
  C7, as stated, fails: no step checks the parsed object against the schema. The record
  the OpenAI driver makes of \<open>inv.pdf\<close> keeps the key \<open>invoiceNumber\<close>, which the schema
  does not have, and has no \<open>currency\<close>, which the schema requires.
\<close>

theorem record_keys_counterexample:
  "fst (ocr_tool_get_payload demo_config demo_world [''inv.pdf'']) = Inr [JObj demo_openai_fields]
   \<and> ''invoiceNumber'' \<in> set (map fst demo_openai_fields)
   \<and> ''invoiceNumber'' \<notin> set (''path'' # schema_fields)
   \<and> ''currency'' \<in> set required_fields
   \<and> ''currency'' \<notin> set (map fst demo_openai_fields)"
  by code_simp

text \<open>
  C7, amended. Every record a driver returns is the record of one of the documents of the
  list, and its keys are exactly the keys of the object that \<open>json.loads\<close> returned for the
  structured call in the backend's answer to that document (the \<open>arguments\<close> of the
  function call in the OpenAI driver, the match of the regular expression in the
  completion in the Anthropic driver), together with the four date fields and \<open>path\<close> in
  the OpenAI driver, and together with \<open>_source\<close> in the Anthropic driver: keys are added,
  none is removed and none is checked against the schema.
\<close>

theorem record_keys:
  "(ocr_tool_get_payload cfg w paths = (Inr records, l) \<and> record \<in> set records \<longrightarrow>
      (\<exists>file_path arguments raw out.
           file_path \<in> set paths
         \<and> fst (ocr_tool_process_file cfg w file_path) = Inr (Some record)
         \<and> ocr_tool_arguments cfg w file_path = Some arguments
         \<and> loads w arguments = Inr (JObj raw)
         \<and> record = JObj out
         \<and> fst ` set out = fst ` set raw \<union> set date_fields \<union> {''path''}))
   \<and> (anthropic_get_payload cfg w paths = (Inr records, l) \<and> record \<in> set records \<longrightarrow>
      (\<exists>file_path mime_type file_type m raw out.
           file_path \<in> set paths
         \<and> fst (anthropic_process_file cfg w file_path) = Some record
         \<and> anthropic_json_match cfg w file_path = Some (mime_type, file_type, m)
         \<and> json_loads w m = Inr (JObj raw)
         \<and> record = JObj out
         \<and> fst ` set out = fst ` set raw \<union> {''_source''}))"
proof (intro conjI impI)
  assume a: "ocr_tool_get_payload cfg w paths = (Inr records, l) \<and> record \<in> set records"
  then have "records = [] @ concat (map (\<lambda>p. case fst (ocr_tool_process_file cfg w p) of
                                           Inr r \<Rightarrow> opt_list r | Inl e \<Rightarrow> []) paths)"
    unfolding ocr_tool_get_payload_def using ocr_tool_loop_Inr by blast
  with a obtain p where p: "p \<in> set paths"
    and "record \<in> set (case fst (ocr_tool_process_file cfg w p) of
                         Inr r \<Rightarrow> opt_list r | Inl e \<Rightarrow> [])"
    by auto
  then have made: "fst (ocr_tool_process_file cfg w p) = Inr (Some record)"
    by (auto simp: opt_list_def split: sum.splits option.splits)
  then obtain l0 where "ocr_tool_process_file cfg w p = (Inr (Some record), l0)"
    by (cases "ocr_tool_process_file cfg w p") simp
  from ocr_tool_process_file_record [OF this] obtain arguments final_data l' where
    args: "ocr_tool_arguments cfg w p = Some arguments"
    and parsed: "loads w arguments = Inr final_data"
    and post: "ocr_tool_postprocess (parse_date w) p final_data = (Inr record, l')"
    by blast
  from post obtain raw where raw: "final_data = JObj raw"
    using ocr_tool_postprocess_Inr_dict by blast
  from ocr_tool_postprocess_dict [of "parse_date w" p raw] post raw obtain out where
    "record = JObj out" and "fst ` set out = fst ` set raw \<union> set date_fields \<union> {''path''}"
    by auto
  with p made args parsed raw
  show "\<exists>file_path arguments raw out.
           file_path \<in> set paths
         \<and> fst (ocr_tool_process_file cfg w file_path) = Inr (Some record)
         \<and> ocr_tool_arguments cfg w file_path = Some arguments
         \<and> loads w arguments = Inr (JObj raw)
         \<and> record = JObj out
         \<and> fst ` set out = fst ` set raw \<union> set date_fields \<union> {''path''}"
    by blast
next
  assume a: "anthropic_get_payload cfg w paths = (Inr records, l) \<and> record \<in> set records"
  then have "records = concat (map (\<lambda>p. opt_list (fst (anthropic_process_file cfg w p))) paths)"
    using anthropic_get_payload_Inr by blast
  with a obtain p where p: "p \<in> set paths"
    and "record \<in> set (opt_list (fst (anthropic_process_file cfg w p)))"
    by auto
  then have made: "fst (anthropic_process_file cfg w p) = Some record"
    by (auto simp: opt_list_def split: option.splits)
  then obtain l0 where "anthropic_process_file cfg w p = (Some record, l0)"
    by (cases "anthropic_process_file cfg w p") simp
  from anthropic_process_file_record [OF this] obtain mime_type file_type m final_data l' where
    found: "anthropic_json_match cfg w p = Some (mime_type, file_type, m)"
    and parsed: "json_loads w m = Inr final_data"
    and post: "anthropic_postprocess (parse_date w) p mime_type file_type final_data
                 = (Inr record, l')"
    by blast
  from post obtain raw where raw: "final_data = JObj raw"
    using anthropic_postprocess_Inr_dict by blast
  from anthropic_postprocess_dict [of "parse_date w" p mime_type file_type raw "record" "l'"] post raw
  obtain out where out: "record = JObj out"
    and eq: "out = AList.update ''_source'' (source_object p mime_type file_type)
               (case map_of raw ''dates'' of
                  None \<Rightarrow> raw
                | Some dates \<Rightarrow>
                    (case anthropic_standardize_dates (parse_date w) dates of
                       (Inr dates', l') \<Rightarrow> AList.update ''dates'' dates' raw
                     | (Inl e, l') \<Rightarrow> raw))"
    by auto
  have "fst ` set out = fst ` set raw \<union> {''_source''}"
  proof (cases "map_of raw ''dates''")
    case None
    with eq show ?thesis by (auto simp: dom_update)
  next
    case (Some dates)
    then have "''dates'' \<in> fst ` set raw" by (metis map_of_eq_None_iff option.distinct(1))
    with eq Some show ?thesis
      by (auto simp: dom_update split: prod.splits sum.splits)
  qed
  with p made found parsed raw out
  show "\<exists>file_path mime_type file_type m raw out.
           file_path \<in> set paths
         \<and> fst (anthropic_process_file cfg w file_path) = Some record
         \<and> anthropic_json_match cfg w file_path = Some (mime_type, file_type, m)
         \<and> json_loads w m = Inr (JObj raw)
         \<and> record = JObj out
         \<and> fst ` set out = fst ` set raw \<union> {''_source''}"
    by blast
qed

theorem record_keys_witness:
  "fst (ocr_tool_get_payload demo_config demo_world [''inv.pdf'']) = Inr [JObj demo_openai_fields]
   \<and> ocr_tool_arguments demo_config demo_world ''inv.pdf'' = Some (JStr demo_json_text)
   \<and> loads demo_world (JStr demo_json_text) = Inr demo_raw
   \<and> (\<exists>raw. demo_raw = JObj raw
         \<and> fst ` set demo_openai_fields = fst ` set raw \<union> set date_fields \<union> {''path''})
   \<and> fst (anthropic_get_payload demo_config demo_world [''inv.pdf'']) = Inr [JObj demo_anthropic_fields]
   \<and> anthropic_json_match demo_config demo_world ''inv.pdf''
        = Some (''application/pdf'', ''application'', demo_json_text)
   \<and> json_loads demo_world demo_json_text = Inr demo_raw
   \<and> (\<exists>raw. demo_raw = JObj raw
         \<and> fst ` set demo_anthropic_fields = fst ` set raw \<union> {''_source''})"
proof -
  have o: "fst (ocr_tool_get_payload demo_config demo_world [''inv.pdf'']) = Inr [JObj demo_openai_fields]"
    by code_simp
  then obtain lo where lo: "ocr_tool_get_payload demo_config demo_world [''inv.pdf'']
      = (Inr [JObj demo_openai_fields], lo)"
    by (cases "ocr_tool_get_payload demo_config demo_world [''inv.pdf'']") simp
  have o_args: "ocr_tool_arguments demo_config demo_world ''inv.pdf'' = Some (JStr demo_json_text)"
    by code_simp
  have o_loads: "loads demo_world (JStr demo_json_text) = Inr demo_raw"
    by code_simp
  have a: "fst (anthropic_get_payload demo_config demo_world [''inv.pdf'']) = Inr [JObj demo_anthropic_fields]"
    by code_simp
  then obtain la where la: "anthropic_get_payload demo_config demo_world [''inv.pdf'']
      = (Inr [JObj demo_anthropic_fields], la)"
    by (cases "anthropic_get_payload demo_config demo_world [''inv.pdf'']") simp
  have a_match: "anthropic_json_match demo_config demo_world ''inv.pdf''
        = Some (''application/pdf'', ''application'', demo_json_text)"
    by code_simp
  have a_loads: "json_loads demo_world demo_json_text = Inr demo_raw"
    by code_simp
  from record_keys [of demo_config demo_world "[''inv.pdf'']" "[JObj demo_openai_fields]" lo
      "JObj demo_openai_fields"] lo
  obtain arguments raw out where
    "ocr_tool_arguments demo_config demo_world ''inv.pdf'' = Some arguments"
    and "loads demo_world arguments = Inr (JObj raw)"
    and "JObj demo_openai_fields = JObj out"
    and "fst ` set out = fst ` set raw \<union> set date_fields \<union> {''path''}"
    by auto
  with o_args o_loads have openai: "\<exists>raw. demo_raw = JObj raw
         \<and> fst ` set demo_openai_fields = fst ` set raw \<union> set date_fields \<union> {''path''}"
    by auto
  from record_keys [of demo_config demo_world "[''inv.pdf'']" "[JObj demo_anthropic_fields]" la
      "JObj demo_anthropic_fields"] la
  obtain mime_type file_type m raw out where
    "anthropic_json_match demo_config demo_world ''inv.pdf'' = Some (mime_type, file_type, m)"
    and "json_loads demo_world m = Inr (JObj raw)"
    and "JObj demo_anthropic_fields = JObj out"
    and "fst ` set out = fst ` set raw \<union> {''_source''}"
    by auto
  with a_match a_loads have anthropic: "\<exists>raw. demo_raw = JObj raw
         \<and> fst ` set demo_anthropic_fields = fst ` set raw \<union> {''_source''}"
    by auto
  from o o_args o_loads openai a a_match a_loads anthropic show ?thesis by blast
qed

section \<open>Dates in the records of the Anthropic driver\<close>

lemma anthropic_dates_loop_values:
  assumes "anthropic_dates_loop parse ks dates = (Inr out, l)" and "distinct ks"
  shows "(k \<in> set ks \<longrightarrow>
            (\<exists>d l'. anthropic_standardize_date parse
                       (case map_of dates k of Some x \<Rightarrow> x | None \<Rightarrow> JNull) = (Inr d, l')
                    \<and> map_of out k = Some d))
         \<and> (k \<notin> set ks \<longrightarrow> map_of out k = map_of dates k)"
  using assms
proof (induction ks arbitrary: dates l)
  case Nil
  then show ?case by simp
next
  case (Cons k0 ks)
  let ?v = "case map_of dates k0 of Some x \<Rightarrow> x | None \<Rightarrow> JNull"
  obtain r0 l0 where std: "anthropic_standardize_date parse ?v = (r0, l0)"
    by (cases "anthropic_standardize_date parse ?v")
  show ?case
  proof (cases r0)
    case (Inl e)
    with Cons.prems(1) std show ?thesis by simp
  next
    case (Inr d)
    let ?dates = "AList.update k0 d dates"
    obtain r1 l1 where rest: "anthropic_dates_loop parse ks ?dates = (r1, l1)"
      by (cases "anthropic_dates_loop parse ks ?dates")
    with Cons.prems(1) std Inr have "r1 = Inr out" by simp
    with rest have loop: "anthropic_dates_loop parse ks ?dates = (Inr out, l1)" by simp
    from Cons.prems(2) have fresh: "k0 \<notin> set ks" and dist: "distinct ks" by simp_all
    note IH = Cons.IH [OF loop dist]
    show ?thesis
    proof (cases "k = k0")
      case True
      with IH fresh std Inr show ?thesis by (simp add: update_conv')
    next
      case False
      with IH show ?thesis by (simp add: update_conv')
    qed
  qed
qed

lemma anthropic_standardize_dates_dict:
  assumes "anthropic_standardize_dates parse (JObj kvs) = (Inr dates', l)"
    and "distinct (map fst kvs)"
  shows "\<exists>kvs'. dates' = JObj kvs'
           \<and> (\<forall>k v. map_of kvs k = Some v \<longrightarrow>
                 (\<exists>d l'. anthropic_standardize_date parse v = (Inr d, l') \<and> map_of kvs' k = Some d))"
proof -
  obtain r l0 where loop: "anthropic_dates_loop parse (map fst kvs) kvs = (r, l0)"
    by (cases "anthropic_dates_loop parse (map fst kvs) kvs")
  with assms(1) obtain kvs' where r: "r = Inr kvs'" and d: "dates' = JObj kvs'"
    by (cases r) (auto simp: anthropic_standardize_dates_def)
  have "\<forall>k v. map_of kvs k = Some v \<longrightarrow>
          (\<exists>d l'. anthropic_standardize_date parse v = (Inr d, l') \<and> map_of kvs' k = Some d)"
  proof (intro allI impI)
    fix k v
    assume v: "map_of kvs k = Some v"
    then have "k \<in> set (map fst kvs)" by (metis map_of_eq_None_iff option.distinct(1) set_map)
    with anthropic_dates_loop_values [OF loop [unfolded r] assms(2), of k] v
    show "\<exists>d l'. anthropic_standardize_date parse v = (Inr d, l') \<and> map_of kvs' k = Some d"
      by simp
  qed
  with d show ?thesis by blast
qed

text \<open>
  C8. A record of the Anthropic driver is the record of one of the documents of the list.
  It is the object \<open>json.loads\<close> returned for the match of the regular expression in the
  completion the backend gave for that document, with \<open>_source\<close> set to the metadata object
  of that document (its path, the MIME type the library gave for it, and the extraction
  method that follows from the type), and with the value under \<open>dates\<close>, when the object
  has that key, replaced by the result of the date loop (each value nested in it replaced
  by its \<open>standardize_date\<close>). Every other key, the top-level \<open>dateInvoiced\<close>,
  \<open>dateOfReceiving\<close>, \<open>datePaid\<close> and \<open>dueDate\<close> among them, has the value the model
  returned, and no other key is added.
\<close>

theorem anthropic_record_frame:
  assumes "anthropic_get_payload cfg w paths = (Inr records, l)" and "record \<in> set records"
  shows "\<exists>file_path mime_type file_type m raw out.
     file_path \<in> set paths
     \<and> fst (anthropic_process_file cfg w file_path) = Some record
     \<and> anthropic_json_match cfg w file_path = Some (mime_type, file_type, m)
     \<and> mime_from_file w file_path = Inr mime_type
     \<and> (\<exists>file_format. py_split (CHR ''/'') mime_type = [file_type, file_format])
     \<and> json_loads w m = Inr (JObj raw)
     \<and> record = JObj out
     \<and> map_of out ''_source'' = Some (source_object file_path mime_type file_type)
     \<and> (\<forall>key. key \<noteq> ''dates'' \<and> key \<noteq> ''_source'' \<longrightarrow> map_of out key = map_of raw key)
     \<and> (\<forall>field \<in> set date_fields. map_of out field = map_of raw field)
     \<and> (case map_of raw ''dates'' of
          None \<Rightarrow> map_of out ''dates'' = None
        | Some dates \<Rightarrow>
            (\<exists>dates' l'. anthropic_standardize_dates (parse_date w) dates = (Inr dates', l')
               \<and> map_of out ''dates'' = Some dates'
               \<and> (\<forall>kvs. dates = JObj kvs \<and> distinct (map fst kvs) \<longrightarrow>
                     (\<exists>kvs'. dates' = JObj kvs'
                        \<and> (\<forall>k v. map_of kvs k = Some v \<longrightarrow>
                              (\<exists>d l''. anthropic_standardize_date (parse_date w) v = (Inr d, l'')
                                 \<and> map_of kvs' k = Some d))))))"
proof -
  from assms(1)
  have "records = concat (map (\<lambda>p. opt_list (fst (anthropic_process_file cfg w p))) paths)"
    by (rule anthropic_get_payload_Inr)
  with assms(2) obtain p where p: "p \<in> set paths"
    and "record \<in> set (opt_list (fst (anthropic_process_file cfg w p)))"
    by auto
  then have made: "fst (anthropic_process_file cfg w p) = Some record"
    by (auto simp: opt_list_def split: option.splits)
  then obtain l0 where "anthropic_process_file cfg w p = (Some record, l0)"
    by (cases "anthropic_process_file cfg w p") simp
  from anthropic_process_file_record [OF this] obtain mime_type file_type m final_data l1 where
    found: "anthropic_json_match cfg w p = Some (mime_type, file_type, m)"
    and parsed: "json_loads w m = Inr final_data"
    and post: "anthropic_postprocess (parse_date w) p mime_type file_type final_data
                 = (Inr record, l1)"
    by blast
  from anthropic_json_match_mime [OF found]
  have mime: "mime_from_file w p = Inr mime_type"
    and parts: "\<exists>file_format. py_split (CHR ''/'') mime_type = [file_type, file_format]"
    by simp_all
  from post obtain raw where raw: "final_data = JObj raw"
    using anthropic_postprocess_Inr_dict by blast
  let ?src = "source_object p mime_type file_type"
  let ?mid = "case map_of raw ''dates'' of
                  None \<Rightarrow> raw
                | Some dates \<Rightarrow>
                    (case anthropic_standardize_dates (parse_date w) dates of
                       (Inr dates', l') \<Rightarrow> AList.update ''dates'' dates' raw
                     | (Inl e, l') \<Rightarrow> raw)"
  from anthropic_postprocess_dict [of "parse_date w" p mime_type file_type raw "record" l1] post raw
  have out: "record = JObj (AList.update ''_source'' ?src ?mid)"
    and ok: "\<forall>dates. map_of raw ''dates'' = Some dates \<longrightarrow>
           (\<exists>dates' l'. anthropic_standardize_dates (parse_date w) dates = (Inr dates', l'))"
    by auto
  let ?out = "AList.update ''_source'' ?src ?mid"
  have mid_other: "\<forall>key. key \<noteq> ''dates'' \<longrightarrow> map_of ?mid key = map_of raw key"
    by (auto simp: update_conv' split: option.splits prod.splits sum.splits)
  have src: "map_of ?out ''_source'' = Some ?src"
    by (simp add: update_conv')
  have other: "\<forall>key. key \<noteq> ''dates'' \<and> key \<noteq> ''_source'' \<longrightarrow> map_of ?out key = map_of raw key"
    using mid_other by (simp add: update_conv')
  have fields: "\<forall>field \<in> set date_fields. map_of ?out field = map_of raw field"
    using other by (auto simp: date_fields_def)
  have dates: "case map_of raw ''dates'' of
          None \<Rightarrow> map_of ?out ''dates'' = None
        | Some dates \<Rightarrow>
            (\<exists>dates' l'. anthropic_standardize_dates (parse_date w) dates = (Inr dates', l')
               \<and> map_of ?out ''dates'' = Some dates'
               \<and> (\<forall>kvs. dates = JObj kvs \<and> distinct (map fst kvs) \<longrightarrow>
                     (\<exists>kvs'. dates' = JObj kvs'
                        \<and> (\<forall>k v. map_of kvs k = Some v \<longrightarrow>
                              (\<exists>d l''. anthropic_standardize_date (parse_date w) v = (Inr d, l'')
                                 \<and> map_of kvs' k = Some d)))))"
  proof (cases "map_of raw ''dates''")
    case None
    then show ?thesis by (simp add: update_conv')
  next
    case (Some dates)
    with ok obtain dates' l' where
      std: "anthropic_standardize_dates (parse_date w) dates = (Inr dates', l')"
      by blast
    have stored: "map_of ?out ''dates'' = Some dates'"
      by (simp add: Some std update_conv')
    have nested: "\<forall>kvs. dates = JObj kvs \<and> distinct (map fst kvs) \<longrightarrow>
                     (\<exists>kvs'. dates' = JObj kvs'
                        \<and> (\<forall>k v. map_of kvs k = Some v \<longrightarrow>
                              (\<exists>d l''. anthropic_standardize_date (parse_date w) v = (Inr d, l'')
                                 \<and> map_of kvs' k = Some d)))"
      using std anthropic_standardize_dates_dict by blast
    from std stored nested show ?thesis unfolding Some by (simp only: option.case) blast
  qed
  from p made found mime parts parsed raw out src other fields dates show ?thesis by blast
qed

theorem anthropic_record_frame_witness:
  "fst (anthropic_get_payload demo_config demo_world [''nested.pdf'']) = Inr [JObj demo_nested_fields]
   \<and> anthropic_json_match demo_config demo_world ''nested.pdf''
        = Some (''application/pdf'', ''application'', demo_nested_text)
   \<and> json_loads demo_world demo_nested_text = Inr demo_nested
   \<and> (\<exists>raw. demo_nested = JObj raw
         \<and> map_of demo_nested_fields ''_source''
             = Some (source_object ''nested.pdf'' ''application/pdf'' ''application'')
         \<and> (\<forall>key. key \<noteq> ''dates'' \<and> key \<noteq> ''_source'' \<longrightarrow>
               map_of demo_nested_fields key = map_of raw key)
         \<and> (\<forall>field \<in> set date_fields. map_of demo_nested_fields field = map_of raw field))
   \<and> map_of demo_nested_fields ''dueDate'' = Some (JStr ''15/03/2024'')
   \<and> map_of demo_nested_fields ''dates'' =
       Some (JObj [(''dueDate'', JStr ''2024-03-15''), (''datePaid'', JNull)])"
proof -
  have run: "fst (anthropic_get_payload demo_config demo_world [''nested.pdf''])
      = Inr [JObj demo_nested_fields]"
    by code_simp
  then obtain l where l: "anthropic_get_payload demo_config demo_world [''nested.pdf'']
      = (Inr [JObj demo_nested_fields], l)"
    by (cases "anthropic_get_payload demo_config demo_world [''nested.pdf'']") simp
  have found: "anthropic_json_match demo_config demo_world ''nested.pdf''
        = Some (''application/pdf'', ''application'', demo_nested_text)"
    by code_simp
  have parsed: "json_loads demo_world demo_nested_text = Inr demo_nested"
    by code_simp
  have mem: "JObj demo_nested_fields \<in> set [JObj demo_nested_fields]" by simp
  from anthropic_record_frame [OF l mem]
  have tied: "\<exists>raw. demo_nested = JObj raw
         \<and> map_of demo_nested_fields ''_source''
             = Some (source_object ''nested.pdf'' ''application/pdf'' ''application'')
         \<and> (\<forall>key. key \<noteq> ''dates'' \<and> key \<noteq> ''_source'' \<longrightarrow>
               map_of demo_nested_fields key = map_of raw key)
         \<and> (\<forall>field \<in> set date_fields. map_of demo_nested_fields field = map_of raw field)"
  proof (elim exE conjE)
    fix file_path mime_type file_type m raw out
    assume p: "file_path \<in> set [''nested.pdf'']"
      and matched: "anthropic_json_match demo_config demo_world file_path
                      = Some (mime_type, file_type, m)"
      and loaded: "json_loads demo_world m = Inr (JObj raw)"
      and out: "JObj demo_nested_fields = JObj out"
      and src: "map_of out ''_source'' = Some (source_object file_path mime_type file_type)"
      and other: "\<forall>key. key \<noteq> ''dates'' \<and> key \<noteq> ''_source'' \<longrightarrow> map_of out key = map_of raw key"
      and fields: "\<forall>field \<in> set date_fields. map_of out field = map_of raw field"
    from p have path: "file_path = ''nested.pdf''" by simp
    from matched found path have same: "mime_type = ''application/pdf''"
      "file_type = ''application''" "m = demo_nested_text"
      by simp_all
    from loaded parsed same have raw: "demo_nested = JObj raw" by simp
    from out have "out = demo_nested_fields" by simp
    with raw src other fields path same show ?thesis by blast
  qed
  have "map_of demo_nested_fields ''dueDate'' = Some (JStr ''15/03/2024'')
    \<and> map_of demo_nested_fields ''dates'' =
       Some (JObj [(''dueDate'', JStr ''2024-03-15''), (''datePaid'', JNull)])"
    by (simp add: demo_nested_fields_def)
  with run found parsed tied show ?thesis by blast
qed

section \<open>Normalization of the date fields\<close>

lemma strftime_ymd_not_none: "strftime_ymd d \<noteq> ''none''"
proof
  assume "strftime_ymd d = ''none''"
  then have "set (strftime_ymd d) = set ''none''" by simp
  moreover have "CHR ''-'' \<in> set (strftime_ymd d)"
    by (simp add: strftime_ymd_def)
  ultimately show False by simp
qed

lemma ocr_tool_standardize_date_value:
  "fst (ocr_tool_standardize_date parse x) =
     (case x of
        JStr (c # cs) \<Rightarrow>
          (case parse (c # cs) of
             Inr date_obj \<Rightarrow> JStr (strftime_ymd date_obj)
           | Inl e \<Rightarrow> JStr ''none'')
      | _ \<Rightarrow> JStr ''none'')"
proof (cases x)
  case (JStr s)
  then show ?thesis
    by (cases s; cases "parse s") (simp_all add: ocr_tool_standardize_date_def)
qed (simp_all add: ocr_tool_standardize_date_def)

lemma normalized_date_value:
  assumes "field \<noteq> ''paymentMethod''"
  shows "normalized_value field (fst (ocr_tool_standardize_date parse x)) =
     (case x of
        JStr (c # cs) \<Rightarrow>
          (case parse (c # cs) of
             Inr date_obj \<Rightarrow> JStr (strftime_ymd date_obj)
           | Inl e \<Rightarrow> JNull)
      | _ \<Rightarrow> JNull)"
proof (cases x)
  case (JStr s)
  show ?thesis
  proof (cases s)
    case Nil
    with JStr assms show ?thesis
      by (simp add: ocr_tool_standardize_date_value normalized_value_def)
  next
    case (Cons c cs)
    with JStr assms show ?thesis
      by (cases "parse (c # cs)")
        (simp_all add: ocr_tool_standardize_date_value normalized_value_def strftime_ymd_not_none)
  qed
qed (simp_all add: ocr_tool_standardize_date_value normalized_value_def assms)

text \<open>
  In the OpenAI driver followed by the loop of \<open>set_invoice\<close>, each of the four date fields
  ends as the canonical string when its value is a non-empty string the parser accepts,
  and as \<open>None\<close> in every other case (missing, \<open>None\<close>, empty, not a string, rejected by
  the parser); nothing raises.
\<close>

lemma ocr_tool_field_normalization:
  assumes "distinct (map fst raw)" and "field \<in> set date_fields"
  shows "\<exists>out l. ocr_tool_postprocess parse file_path (JObj raw) = (Inr (JObj out), l)
           \<and> map_of (set_invoice_fields out) field =
               Some (case map_of raw field of
                       Some (JStr (c # cs)) \<Rightarrow>
                         (case parse (c # cs) of
                            Inr date_obj \<Rightarrow> JStr (strftime_ymd date_obj)
                          | Inl e \<Rightarrow> JNull)
                     | _ \<Rightarrow> JNull)"
proof -
  let ?v = "case map_of raw field of Some x \<Rightarrow> x | None \<Rightarrow> JNull"
  from ocr_tool_postprocess_dict [of parse file_path raw] obtain out l where
    all: "ocr_tool_postprocess parse file_path (JObj raw) = (Inr (JObj out), l)
     \<and> fst ` set out = fst ` set raw \<union> set date_fields \<union> {''path''}
     \<and> (distinct (map fst raw) \<longrightarrow> distinct (map fst out))
     \<and> map_of out ''path'' = Some (JStr file_path)
     \<and> (\<forall>k \<in> set date_fields. map_of out k =
           Some (fst (ocr_tool_standardize_date parse
                   (case map_of raw k of Some x \<Rightarrow> x | None \<Rightarrow> JNull))))
     \<and> (\<forall>k. k \<notin> set date_fields \<and> k \<noteq> ''path'' \<longrightarrow> map_of out k = map_of raw k)"
    by (elim exE) (rule that)
  from all have run: "ocr_tool_postprocess parse file_path (JObj raw) = (Inr (JObj out), l)"
    by (rule conjunct1)
  from all assms(1) have dist: "distinct (map fst out)" by simp
  from all have "\<forall>k \<in> set date_fields. map_of out k =
           Some (fst (ocr_tool_standardize_date parse
                   (case map_of raw k of Some x \<Rightarrow> x | None \<Rightarrow> JNull)))"
    by simp
  with assms(2) have val: "map_of out field = Some (fst (ocr_tool_standardize_date parse ?v))"
    by (rule bspec [rotated])
  from assms(2) have not_pm: "field \<noteq> ''paymentMethod''" by (auto simp: date_fields_def)
  have "map_of (set_invoice_fields out) field =
          Some (normalized_value field (fst (ocr_tool_standardize_date parse ?v)))"
    using set_invoice_fields_map_of [OF dist, of field] val by simp
  also have "normalized_value field (fst (ocr_tool_standardize_date parse ?v)) =
      (case ?v of
         JStr (c # cs) \<Rightarrow>
           (case parse (c # cs) of
              Inr date_obj \<Rightarrow> JStr (strftime_ymd date_obj)
            | Inl e \<Rightarrow> JNull)
       | _ \<Rightarrow> JNull)"
    using not_pm by (rule normalized_date_value)
  also have "\<dots> =
      (case map_of raw field of
         Some (JStr (c # cs)) \<Rightarrow>
           (case parse (c # cs) of
              Inr date_obj \<Rightarrow> JStr (strftime_ymd date_obj)
            | Inl e \<Rightarrow> JNull)
       | _ \<Rightarrow> JNull)"
    by (cases "map_of raw field") simp_all
  finally show ?thesis using run by blast
qed

text \<open>
  C1. The Anthropic driver, the one \<open>main.py\<close> imports, applies \<open>standardize_date\<close> only
  under a key \<open>dates\<close>, which the prompt never asks for. For \<open>inv.pdf\<close> the model returns
  \<open>"dueDate": "15/03/2024"\<close>, which the parser reads as 15 March 2024: the record of the
  Anthropic driver still has \<open>15/03/2024\<close>, also after the loop of \<open>set_invoice\<close>, where
  the OpenAI driver gives \<open>2024-03-15\<close> (and \<open>None\<close> for \<open>dateInvoiced\<close>).
\<close>

theorem anthropic_top_level_date_kept:
  "parse_date demo_world ''15/03/2024'' = Inr \<lparr>dt_year = 2024, dt_month = 3, dt_day = 15\<rparr>
   \<and> fst (anthropic_get_payload demo_config demo_world [''inv.pdf'']) = Inr [JObj demo_anthropic_fields]
   \<and> map_of demo_anthropic_fields ''dueDate'' = Some (JStr ''15/03/2024'')
   \<and> map_of (set_invoice_fields demo_anthropic_fields) ''dueDate'' = Some (JStr ''15/03/2024'')
   \<and> fst (ocr_tool_get_payload demo_config demo_world [''inv.pdf'']) = Inr [JObj demo_openai_fields]
   \<and> map_of (set_invoice_fields demo_openai_fields) ''dueDate'' = Some (JStr ''2024-03-15'')
   \<and> map_of (set_invoice_fields demo_openai_fields) ''dateInvoiced'' = Some JNull"
  by code_simp

section \<open>Failure isolation\<close>

lemma ocr_tool_get_payload_raises:
  assumes "p \<in> set paths" and "fst (ocr_tool_process_file cfg w p) = Inl e"
  shows "\<exists>e' l. ocr_tool_get_payload cfg w paths = (Inl e', l)"
  unfolding ocr_tool_get_payload_def using assms by (rule ocr_tool_loop_raises)

text \<open>
  C2. The OpenAI driver has no \<open>try\<close>: \<open>inv.pdf\<close> alone gives its record, but with
  \<open>broken.pdf\<close>, whose OCR raises, after it in the list, \<open>get_payload\<close> raises that
  exception and returns nothing, the record of \<open>inv.pdf\<close> included. The Anthropic driver
  on the same list returns the record of \<open>inv.pdf\<close>.
\<close>

theorem ocr_tool_exception_aborts_batch:
  "fst (ocr_tool_get_payload demo_config demo_world [''inv.pdf'']) = Inr [JObj demo_openai_fields]
   \<and> fst (ocr_tool_get_payload demo_config demo_world [''inv.pdf'', ''broken.pdf'']) =
       Inl (OtherException ''OSError: cannot read the page image'')
   \<and> fst (anthropic_get_payload demo_config demo_world [''inv.pdf'', ''broken.pdf'']) =
       Inr [JObj demo_anthropic_fields]"
  by code_simp

section \<open>A response without a structured call\<close>














end
